theory Spec2Isabelle
  imports Complex_Main "HOL-Library.Sublist"
begin

section \<open>SQL values\<close>

text \<open>
  The repository is a React dashboard (\<^verbatim>\<open>Dashboard.tsx\<close>) over a PostgreSQL schema
  with row-level security and triggers (the two migrations that follow \<^verbatim>\<open>Index.tsx\<close>).
  A column value is an \<open>option\<close>: \<open>None\<close> is SQL's NULL. A number is an exact
  decimal, embedded in the rationals; what a statement writes to a \<open>DECIMAL(15,2)\<close>
  column is cast to that type first (\<open>decimal_15_2\<close> below). A \<open>TIMESTAMPTZ\<close> is a
  count of microseconds; a \<open>UUID\<close> is its text.
\<close>

type_synonym uuid = string
type_synonym numeric = rat
type_synonym timestamptz = int

datatype jsonb =
    JNull
  | JBool bool
  | JNumber numeric
  | JString string
  | JArray "jsonb list"
  | JObject "(string \<times> jsonb) list"

text \<open>
  What aborts a statement: \<open>RAISE EXCEPTION\<close> in a trigger function, a row-level
  security \<open>WITH CHECK\<close> that is not true, a violated column or table constraint, a
  filter value that is not of the column's type, and a request that never reached
  the database.
\<close>

datatype error =
    RaiseException string
  | RlsViolation string
  | NotNullViolation string
  | CheckViolation string
  | UniqueViolation string
  | ForeignKeyViolation string
  | InvalidTextRepresentation string
  | NumericValueOutOfRange string
  | FetchError string

text \<open>Comparisons are three-valued: a NULL operand makes the result NULL.\<close>

definition sql_eq :: "'a option \<Rightarrow> 'a option \<Rightarrow> bool option" where
  "sql_eq a b = (case a of None \<Rightarrow> None | Some x \<Rightarrow> (case b of None \<Rightarrow> None | Some y \<Rightarrow> Some (x = y)))"

definition sql_le :: "numeric option \<Rightarrow> numeric option \<Rightarrow> bool option" where
  "sql_le a b = (case a of None \<Rightarrow> None | Some x \<Rightarrow> (case b of None \<Rightarrow> None | Some y \<Rightarrow> Some (x \<le> y)))"

definition sql_gt :: "numeric option \<Rightarrow> numeric option \<Rightarrow> bool option" where
  "sql_gt a b = (case a of None \<Rightarrow> None | Some x \<Rightarrow> (case b of None \<Rightarrow> None | Some y \<Rightarrow> Some (x > y)))"

definition sql_in :: "'a option \<Rightarrow> 'a list \<Rightarrow> bool option" where
  "sql_in a xs = (case a of None \<Rightarrow> None | Some x \<Rightarrow> Some (x \<in> set xs))"

text \<open>
  \<open>IF c THEN\<close>, a policy's \<open>USING (c)\<close> and \<open>WITH CHECK (c)\<close> take the branch, or
  admit the row, only when \<open>c\<close> is true; a \<open>CHECK (c)\<close> constraint rejects the row only
  when \<open>c\<close> is false. \<open>a IS DISTINCT FROM b\<close> compares NULL as a value.
\<close>

definition is_true :: "bool option \<Rightarrow> bool" where
  "is_true c = (c = Some True)"

definition check_holds :: "bool option \<Rightarrow> bool" where
  "check_holds c = (c \<noteq> Some False)"

definition is_distinct_from :: "'a option \<Rightarrow> 'a option \<Rightarrow> bool" where
  "is_distinct_from a b = (a \<noteq> b)"

definition coalesce :: "'a option \<Rightarrow> 'a \<Rightarrow> 'a" where
  "coalesce a d = (case a of None \<Rightarrow> d | Some x \<Rightarrow> x)"

text \<open>
  The cast of a number to \<open>DECIMAL(15,2)\<close>: it is rounded to two decimals, a tie away
  from zero, and refused when the rounded value needs more than 13 digits before the
  point.
\<close>

definition decimal_15_2 :: "numeric \<Rightarrow> error + numeric" where
  "decimal_15_2 x =
     (let hundredths = (if 0 \<le> x then \<lfloor>x * 100 + 1 / 2\<rfloor> else - \<lfloor>- x * 100 + 1 / 2\<rfloor>)
      in if 10 ^ 15 \<le> \<bar>hundredths\<bar> then Inl (NumericValueOutOfRange ''numeric field overflow'')
         else Inr (of_int hundredths / 100))"

section \<open>Tables\<close>

text \<open>
  \<open>auth.users\<close> belongs to the platform; the migrations read its columns \<open>id\<close>,
  \<open>phone\<close> and \<open>raw_user_meta_data\<close> and reference \<open>id\<close> as a key.
\<close>

record auth_user =
  u_id :: uuid
  u_phone :: "string option"
  u_raw_user_meta_data :: "jsonb option"

record profile =
  p_id :: "uuid option"
  p_phone_number :: "string option"
  p_full_name :: "string option"
  p_balance :: "numeric option"
  p_is_verified :: "bool option"
  p_has_paid_verification :: "bool option"
  p_created_at :: "timestamptz option"
  p_updated_at :: "timestamptz option"

record transaction =
  t_id :: "uuid option"
  t_user_id :: "uuid option"
  t_type :: "string option"
  t_amount :: "numeric option"
  t_recipient_account :: "string option"
  t_recipient_name :: "string option"
  t_recipient_bank :: "string option"
  t_status :: "string option"
  t_reference :: "string option"
  t_description :: "string option"
  t_created_at :: "timestamptz option"

record audit_log =
  a_id :: "uuid option"
  a_user_id :: "uuid option"
  a_action :: "string option"
  a_table_name :: "string option"
  a_old_values :: "jsonb option"
  a_new_values :: "jsonb option"
  a_ip_address :: "string option"
  a_user_agent :: "string option"
  a_created_at :: "timestamptz option"

text \<open>
  The database: each table is the list of its rows, in insertion order.
  (\<open>bank_accounts\<close> has policies only and no trigger or client path; it is left out.)
\<close>

record db =
  users :: "auth_user list"
  profiles :: "profile list"
  transactions :: "transaction list"
  audit_logs :: "audit_log list"

text \<open>
  What a statement reads from outside the tables: the caller \<open>auth.uid()\<close> (NULL for
  an anonymous request), the transaction's \<open>now()\<close>, the values \<open>gen_random_uuid()\<close>
  returns (numbered within the statement), the text PostgreSQL prints for a JSON value
  that is neither a string nor null, and, on the client's side, the error the
  platform answers with when the request fails before its statement runs
  (connectivity, an expired session, a missing privilege).
\<close>

record ctx =
  auth_uid :: "uuid option"
  now :: timestamptz
  gen_random_uuid :: "nat \<Rightarrow> uuid"
  jsonb_out :: "jsonb \<Rightarrow> string"
  request_failure :: "error option"

text \<open>
  A statement runs in a transaction with its triggers: when any step raises, the
  statement's effects are undone and the error is returned.
\<close>

definition run_statement :: "db \<Rightarrow> (db \<Rightarrow> error + db) \<Rightarrow> error option \<times> db" where
  "run_statement d stmt = (case stmt d of Inl e \<Rightarrow> (Some e, d) | Inr d' \<Rightarrow> (None, d'))"

section \<open>Transactions: the amount validator and the write path\<close>

text \<open>
  \<open>validate_transaction_amount\<close>, the \<open>BEFORE INSERT OR UPDATE\<close> row trigger of
  \<open>transactions\<close>.
\<close>

definition validate_transaction_amount :: "transaction \<Rightarrow> error + transaction" where
  "validate_transaction_amount NEW =
     (if is_true (sql_le (t_amount NEW) (Some 0))
      then Inl (RaiseException ''Transaction amount must be positive'')
      else if is_true (sql_gt (t_amount NEW) (Some 100000000))
      then Inl (RaiseException ''Transaction amount exceeds maximum limit'')
      else Inr NEW)"

text \<open>
  The one predicate of the four policies of \<open>transactions\<close> (select, insert, update,
  delete): \<open>auth.uid() = user_id\<close>.
\<close>

definition transactions_policy :: "ctx \<Rightarrow> transaction \<Rightarrow> bool" where
  "transactions_policy c r = is_true (sql_eq (auth_uid c) (t_user_id r))"

text \<open>
  The written value of \<open>amount DECIMAL(15,2)\<close> is cast to the column's type when the
  row is formed, before any trigger sees it.
\<close>

definition cast_amount :: "transaction \<Rightarrow> error + transaction" where
  "cast_amount r =
     (case t_amount r of
        None \<Rightarrow> Inr r
      | Some x \<Rightarrow> (case decimal_15_2 x of
                    Inl e \<Rightarrow> Inl e
                  | Inr y \<Rightarrow> Inr (r\<lparr>t_amount := Some y\<rparr>)))"

text \<open>
  The amount a written row is stored with: its amount cast to the column's type
  (NULL when the row has no amount or the cast refuses it).
\<close>

definition stored_amount :: "transaction \<Rightarrow> numeric option" where
  "stored_amount W = (case cast_amount W of Inl e \<Rightarrow> None | Inr NEW \<Rightarrow> t_amount NEW)"

text \<open>
  The column constraints of \<open>transactions\<close>: NOT NULL in column order, then the two
  CHECKs in the order of their names (\<open>transactions_status_check\<close> before
  \<open>transactions_type_check\<close>), as PostgreSQL tests them.
\<close>

definition transactions_constraints :: "transaction \<Rightarrow> error option" where
  "transactions_constraints r =
     (if t_id r = None then Some (NotNullViolation ''id'')
      else if t_type r = None then Some (NotNullViolation ''type'')
      else if t_amount r = None then Some (NotNullViolation ''amount'')
      else if \<not> check_holds (sql_in (t_status r) [''pending'', ''completed'', ''failed''])
      then Some (CheckViolation ''transactions_status_check'')
      else if \<not> check_holds (sql_in (t_type r)
                [''deposit'', ''withdrawal'', ''transfer'', ''verification_payment''])
      then Some (CheckViolation ''transactions_type_check'')
      else None)"

text \<open>
  The keys of \<open>transactions\<close>, checked against the other rows of the table: the primary
  key \<open>id\<close>, \<open>reference UNIQUE\<close> (NULLs never collide) and the foreign key \<open>user_id\<close>.
\<close>

definition transactions_keys :: "db \<Rightarrow> transaction list \<Rightarrow> transaction \<Rightarrow> error option" where
  "transactions_keys d others r =
     (if t_id r \<in> set (map t_id others) then Some (UniqueViolation ''transactions_pkey'')
      else if t_reference r \<noteq> None \<and> t_reference r \<in> set (map t_reference others)
      then Some (UniqueViolation ''transactions_reference_key'')
      else if (case t_user_id r of None \<Rightarrow> False | Some u \<Rightarrow> u \<notin> set (map u_id (users d)))
      then Some (ForeignKeyViolation ''transactions_user_id_fkey'')
      else None)"

text \<open>
  What every written row \<open>W\<close> goes through, in PostgreSQL's order: the cast to the
  columns' types, the BEFORE row trigger, the policy's check of the new row, the
  column constraints, the keys.
\<close>

definition write_transaction :: "ctx \<Rightarrow> db \<Rightarrow> transaction list \<Rightarrow> transaction \<Rightarrow> error + transaction" where
  "write_transaction c d others W =
     (case cast_amount W of
        Inl e \<Rightarrow> Inl e
      | Inr NEW0 \<Rightarrow>
          (case validate_transaction_amount NEW0 of
             Inl e \<Rightarrow> Inl e
           | Inr NEW \<Rightarrow>
               if \<not> transactions_policy c NEW then Inl (RlsViolation ''transactions'')
               else (case transactions_constraints NEW of
                       Some e \<Rightarrow> Inl e
                     | None \<Rightarrow> (case transactions_keys d others NEW of
                                   Some e \<Rightarrow> Inl e
                                 | None \<Rightarrow> Inr NEW))))"

text \<open>\<open>INSERT INTO transactions\<close> of one written row (its column defaults filled in).\<close>

definition insert_transactions :: "ctx \<Rightarrow> transaction \<Rightarrow> db \<Rightarrow> error + db" where
  "insert_transactions c NEW d =
     (case write_transaction c d (transactions d) NEW of
        Inl e \<Rightarrow> Inl e
      | Inr r \<Rightarrow> Inr (d\<lparr>transactions := transactions d @ [r]\<rparr>))"

text \<open>
  \<open>UPDATE transactions SET ... WHERE ...\<close>: \<open>wh\<close> is the WHERE clause and \<open>upd\<close> the SET
  list. The rows are visited in table order; a row the policy hides or \<open>wh\<close> rejects
  is kept as it is. \<open>seen\<close> are the rows already visited.
\<close>

fun update_transactions_rows ::
  "ctx \<Rightarrow> db \<Rightarrow> (transaction \<Rightarrow> bool) \<Rightarrow> (transaction \<Rightarrow> transaction) \<Rightarrow>
   transaction list \<Rightarrow> transaction list \<Rightarrow> error + transaction list" where
  "update_transactions_rows c d wh upd seen [] = Inr seen"
| "update_transactions_rows c d wh upd seen (OLD # rest) =
     (if transactions_policy c OLD \<and> wh OLD
      then (case write_transaction c d (seen @ rest) (upd OLD) of
              Inl e \<Rightarrow> Inl e
            | Inr NEW \<Rightarrow> update_transactions_rows c d wh upd (seen @ [NEW]) rest)
      else update_transactions_rows c d wh upd (seen @ [OLD]) rest)"

definition update_transactions ::
  "ctx \<Rightarrow> (transaction \<Rightarrow> bool) \<Rightarrow> (transaction \<Rightarrow> transaction) \<Rightarrow> db \<Rightarrow> error + db" where
  "update_transactions c wh upd d =
     (case update_transactions_rows c d wh upd [] (transactions d) of
        Inl e \<Rightarrow> Inl e
      | Inr rows \<Rightarrow> Inr (d\<lparr>transactions := rows\<rparr>))"

text \<open>
  \<open>DELETE FROM transactions WHERE ...\<close>: the rows the delete policy shows and \<open>wh\<close>
  accepts are removed.
\<close>

definition delete_transactions :: "ctx \<Rightarrow> (transaction \<Rightarrow> bool) \<Rightarrow> db \<Rightarrow> error + db" where
  "delete_transactions c wh d =
     Inr (d\<lparr>transactions := filter (\<lambda>r. \<not> (transactions_policy c r \<and> wh r)) (transactions d)\<rparr>)"

text \<open>\<open>SELECT * FROM transactions WHERE ...\<close>: the select policy filters every read.\<close>

definition select_transactions :: "ctx \<Rightarrow> (transaction \<Rightarrow> bool) \<Rightarrow> db \<Rightarrow> transaction list" where
  "select_transactions c wh d = filter (\<lambda>r. transactions_policy c r \<and> wh r) (transactions d)"

text \<open>
  \<open>ORDER BY created_at DESC\<close>: \<open>created_desc a b\<close> says that \<open>a\<close> may stand before
  \<open>b\<close>. PostgreSQL puts NULLs first in a descending order. Rows with equal keys come
  in an order SQL leaves open; the sort below is one such order.
\<close>

definition created_desc :: "transaction \<Rightarrow> transaction \<Rightarrow> bool" where
  "created_desc a b =
     (case t_created_at a of
        None \<Rightarrow> True
      | Some x \<Rightarrow> (case t_created_at b of None \<Rightarrow> False | Some y \<Rightarrow> y \<le> x))"

fun insert_created_desc :: "transaction \<Rightarrow> transaction list \<Rightarrow> transaction list" where
  "insert_created_desc r [] = [r]"
| "insert_created_desc r (x # xs) =
     (if created_desc r x then r # x # xs else x # insert_created_desc r xs)"

definition order_by_created_at_desc :: "transaction list \<Rightarrow> transaction list" where
  "order_by_created_at_desc rows = foldr insert_created_desc rows []"

section \<open>Profiles and the audit log: the trigger layer\<close>

text \<open>The predicate of the policies of \<open>profiles\<close> (select, update, insert): \<open>auth.uid() = id\<close>.\<close>

definition profiles_policy :: "ctx \<Rightarrow> profile \<Rightarrow> bool" where
  "profiles_policy c r = is_true (sql_eq (auth_uid c) (p_id r))"

text \<open>
  The keys of \<open>profiles\<close>: the primary key \<open>id\<close> (not NULL, unique), which is also a
  foreign key to \<open>auth.users\<close>, and \<open>phone_number UNIQUE\<close>.
\<close>

definition profiles_keys :: "db \<Rightarrow> profile list \<Rightarrow> profile \<Rightarrow> error option" where
  "profiles_keys d others r =
     (case p_id r of
        None \<Rightarrow> Some (NotNullViolation ''id'')
      | Some u \<Rightarrow>
          if Some u \<in> set (map p_id others) then Some (UniqueViolation ''profiles_pkey'')
          else if p_phone_number r \<noteq> None \<and> p_phone_number r \<in> set (map p_phone_number others)
          then Some (UniqueViolation ''profiles_phone_number_key'')
          else if u \<notin> set (map u_id (users d))
          then Some (ForeignKeyViolation ''profiles_id_fkey'')
          else None)"

text \<open>The column defaults of \<open>profiles\<close>.\<close>

definition profiles_defaults :: "ctx \<Rightarrow> profile" where
  "profiles_defaults c =
     \<lparr>p_id = None, p_phone_number = None, p_full_name = None, p_balance = Some 100000,
      p_is_verified = Some False, p_has_paid_verification = Some False,
      p_created_at = Some (now c), p_updated_at = Some (now c)\<rparr>"

text \<open>
  \<open>INSERT INTO profiles\<close> of one row. A \<open>SECURITY DEFINER\<close> function writes as the
  tables' owner, whom the policies do not bind; a client's insert is checked by the
  insert policy.
\<close>

definition insert_profiles_definer :: "profile \<Rightarrow> db \<Rightarrow> error + db" where
  "insert_profiles_definer NEW d =
     (case profiles_keys d (profiles d) NEW of
        Some e \<Rightarrow> Inl e
      | None \<Rightarrow> Inr (d\<lparr>profiles := profiles d @ [NEW]\<rparr>))"

definition insert_profiles :: "ctx \<Rightarrow> profile \<Rightarrow> db \<Rightarrow> error + db" where
  "insert_profiles c NEW d =
     (if \<not> profiles_policy c NEW then Inl (RlsViolation ''profiles'')
      else insert_profiles_definer NEW d)"

text \<open>
  \<open>j ->> key\<close>: the field of a JSON object as text; NULL when \<open>j\<close> is NULL or not an
  object, when the key is absent and when the field is JSON null. (A \<open>jsonb\<close> object
  holds each key once.)
\<close>

definition jsonb_field_text :: "ctx \<Rightarrow> jsonb option \<Rightarrow> string \<Rightarrow> string option" where
  "jsonb_field_text c j key =
     (case j of
        Some (JObject members) \<Rightarrow>
          (case map_of members key of
             None \<Rightarrow> None
           | Some JNull \<Rightarrow> None
           | Some (JString s) \<Rightarrow> Some s
           | Some v \<Rightarrow> Some (jsonb_out c v))
      | _ \<Rightarrow> None)"

text \<open>\<open>handle_new_user\<close>, the function of the trigger \<open>on_auth_user_created\<close>.\<close>

definition handle_new_user :: "ctx \<Rightarrow> auth_user \<Rightarrow> db \<Rightarrow> error + db" where
  "handle_new_user c NEW d =
     insert_profiles_definer
       ((profiles_defaults c)
          \<lparr>p_id := Some (u_id NEW),
           p_phone_number := u_phone NEW,
           p_full_name :=
             Some (coalesce (jsonb_field_text c (u_raw_user_meta_data NEW) ''full_name'') [])\<rparr>)
       d"

text \<open>
  The creation of an identity: the platform inserts the row into \<open>auth.users\<close>, and
  \<open>on_auth_user_created\<close> fires \<open>AFTER INSERT ... FOR EACH ROW\<close>, in the same
  transaction.
\<close>

definition create_user :: "ctx \<Rightarrow> auth_user \<Rightarrow> db \<Rightarrow> error + db" where
  "create_user c NEW d =
     (if u_id NEW \<in> set (map u_id (users d)) then Inl (UniqueViolation ''users_pkey'')
      else handle_new_user c NEW (d\<lparr>users := users d @ [NEW]\<rparr>))"

text \<open>\<open>update_updated_at_column\<close>, the \<open>BEFORE UPDATE\<close> row trigger of \<open>profiles\<close>.\<close>

definition update_updated_at_column :: "ctx \<Rightarrow> profile \<Rightarrow> profile" where
  "update_updated_at_column c NEW = NEW\<lparr>p_updated_at := Some (now c)\<rparr>"

text \<open>The keys of \<open>audit_logs\<close>, its NOT NULL columns, and its column defaults.\<close>

definition audit_logs_keys :: "db \<Rightarrow> audit_log \<Rightarrow> error option" where
  "audit_logs_keys d r =
     (if a_id r = None then Some (NotNullViolation ''id'')
      else if a_action r = None then Some (NotNullViolation ''action'')
      else if a_table_name r = None then Some (NotNullViolation ''table_name'')
      else if a_id r \<in> set (map a_id (audit_logs d)) then Some (UniqueViolation ''audit_logs_pkey'')
      else if (case a_user_id r of None \<Rightarrow> False | Some u \<Rightarrow> u \<notin> set (map u_id (users d)))
      then Some (ForeignKeyViolation ''audit_logs_user_id_fkey'')
      else None)"

definition audit_logs_defaults :: "ctx \<Rightarrow> nat \<Rightarrow> audit_log" where
  "audit_logs_defaults c k =
     \<lparr>a_id = Some (gen_random_uuid c k), a_user_id = None, a_action = None,
      a_table_name = None, a_old_values = None, a_new_values = None, a_ip_address = None,
      a_user_agent = None, a_created_at = Some (now c)\<rparr>"

text \<open>
  \<open>INSERT INTO audit_logs\<close> of one row, under the policy "System can insert audit
  logs": \<open>WITH CHECK (true)\<close>, for every caller.
\<close>

definition audit_logs_insert_policy :: "ctx \<Rightarrow> audit_log \<Rightarrow> bool" where
  "audit_logs_insert_policy c r = is_true (Some True)"

definition insert_audit_logs :: "ctx \<Rightarrow> audit_log \<Rightarrow> db \<Rightarrow> error + db" where
  "insert_audit_logs c NEW d =
     (if \<not> audit_logs_insert_policy c NEW then Inl (RlsViolation ''audit_logs'')
      else (case audit_logs_keys d NEW of
              Some e \<Rightarrow> Inl e
            | None \<Rightarrow> Inr (d\<lparr>audit_logs := audit_logs d @ [NEW]\<rparr>)))"

definition jsonb_build_object :: "(string \<times> jsonb) list \<Rightarrow> jsonb" where
  "jsonb_build_object members = JObject members"

definition numeric_to_jsonb :: "numeric option \<Rightarrow> jsonb" where
  "numeric_to_jsonb v = (case v of None \<Rightarrow> JNull | Some x \<Rightarrow> JNumber x)"

text \<open>
  \<open>log_balance_change\<close>, with the trigger variables \<open>TG_OP\<close> and \<open>TG_TABLE_NAME\<close> as
  arguments; \<open>k\<close> numbers the \<open>gen_random_uuid()\<close> that fills the row's \<open>id\<close>. The
  function is \<open>SECURITY DEFINER\<close>; its insert is admitted by the definer's rights as it
  is by the insert policy of \<open>audit_logs\<close>.
\<close>

definition log_balance_change ::
  "ctx \<Rightarrow> nat \<Rightarrow> string \<Rightarrow> string \<Rightarrow> profile \<Rightarrow> profile \<Rightarrow> db \<Rightarrow> error + db" where
  "log_balance_change c k TG_OP TG_TABLE_NAME OLD NEW d =
     (if is_distinct_from (p_balance OLD) (p_balance NEW)
      then insert_audit_logs c
             ((audit_logs_defaults c k)
                \<lparr>a_user_id := p_id NEW,
                 a_action := Some TG_OP,
                 a_table_name := Some TG_TABLE_NAME,
                 a_old_values :=
                   Some (jsonb_build_object [(''balance'', numeric_to_jsonb (p_balance OLD))]),
                 a_new_values :=
                   Some (jsonb_build_object [(''balance'', numeric_to_jsonb (p_balance NEW))])\<rparr>)
             d
      else Inr d)"

text \<open>
  The trigger \<open>log_profile_balance_changes\<close>: \<open>AFTER UPDATE ON profiles FOR EACH ROW\<close>.
  It runs once for every updated row, on the row's old and new version, after the
  statement has written its rows and before the transaction commits.
\<close>

fun log_profile_balance_changes ::
  "ctx \<Rightarrow> nat \<Rightarrow> (profile \<times> profile) list \<Rightarrow> db \<Rightarrow> error + db" where
  "log_profile_balance_changes c k [] d = Inr d"
| "log_profile_balance_changes c k ((OLD, NEW) # rest) d =
     (case log_balance_change c k ''UPDATE'' ''profiles'' OLD NEW d of
        Inl e \<Rightarrow> Inl e
      | Inr d' \<Rightarrow> log_profile_balance_changes c (Suc k) rest d')"

text \<open>
  One updated row of \<open>profiles\<close>: the BEFORE trigger \<open>update_profiles_updated_at\<close>, the
  update policy's check of the new row, the keys. The new row is given by its column
  values, a balance as \<open>DECIMAL(15,2)\<close> holds it.
\<close>

definition write_profile :: "ctx \<Rightarrow> db \<Rightarrow> profile list \<Rightarrow> profile \<Rightarrow> error + profile" where
  "write_profile c d others NEW0 =
     (let NEW = update_updated_at_column c NEW0
      in if \<not> profiles_policy c NEW then Inl (RlsViolation ''profiles'')
         else (case profiles_keys d others NEW of
                 Some e \<Rightarrow> Inl e
               | None \<Rightarrow> Inr NEW))"

text \<open>
  \<open>UPDATE profiles SET ... WHERE ...\<close>. \<open>fired\<close> collects the old and new version of
  every updated row, for the AFTER trigger.
\<close>

fun update_profiles_rows ::
  "ctx \<Rightarrow> db \<Rightarrow> (profile \<Rightarrow> bool) \<Rightarrow> (profile \<Rightarrow> profile) \<Rightarrow>
   profile list \<Rightarrow> (profile \<times> profile) list \<Rightarrow> profile list \<Rightarrow>
   error + (profile list \<times> (profile \<times> profile) list)" where
  "update_profiles_rows c d wh upd seen fired [] = Inr (seen, fired)"
| "update_profiles_rows c d wh upd seen fired (OLD # rest) =
     (if profiles_policy c OLD \<and> wh OLD
      then (case write_profile c d (seen @ rest) (upd OLD) of
              Inl e \<Rightarrow> Inl e
            | Inr NEW \<Rightarrow>
                update_profiles_rows c d wh upd (seen @ [NEW]) (fired @ [(OLD, NEW)]) rest)
      else update_profiles_rows c d wh upd (seen @ [OLD]) fired rest)"

definition update_profiles ::
  "ctx \<Rightarrow> (profile \<Rightarrow> bool) \<Rightarrow> (profile \<Rightarrow> profile) \<Rightarrow> db \<Rightarrow> error + db" where
  "update_profiles c wh upd d =
     (case update_profiles_rows c d wh upd [] [] (profiles d) of
        Inl e \<Rightarrow> Inl e
      | Inr (rows, fired) \<Rightarrow> log_profile_balance_changes c 0 fired (d\<lparr>profiles := rows\<rparr>))"

section \<open>Statements and histories\<close>

text \<open>
  The statements the policies and triggers of the two migrations admit, each run as
  one transaction: the creation and the deletion of an identity, a client's insert
  and update of its profile, its insert, update and delete of transactions, and an
  insert into the audit log. No policy lets a client update or delete audit rows or
  delete a profile.
\<close>

text \<open>
  The deletion of an identity: the platform deletes the row of \<open>auth.users\<close>, and every
  table of the migrations references it \<open>ON DELETE CASCADE\<close>, so the identity's
  profile, transactions and audit rows go with it.
\<close>

definition delete_user :: "uuid \<Rightarrow> db \<Rightarrow> error + db" where
  "delete_user u d =
     Inr \<lparr>users = filter (\<lambda>x. u_id x \<noteq> u) (users d),
          profiles = filter (\<lambda>r. p_id r \<noteq> Some u) (profiles d),
          transactions = filter (\<lambda>r. t_user_id r \<noteq> Some u) (transactions d),
          audit_logs = filter (\<lambda>r. a_user_id r \<noteq> Some u) (audit_logs d)\<rparr>"

datatype statement =
    CreateUser ctx auth_user
  | DeleteUser uuid
  | InsertProfiles ctx profile
  | UpdateProfiles ctx "profile \<Rightarrow> bool" "profile \<Rightarrow> profile"
  | InsertTransactions ctx transaction
  | UpdateTransactions ctx "transaction \<Rightarrow> bool" "transaction \<Rightarrow> transaction"
  | DeleteTransactions ctx "transaction \<Rightarrow> bool"
  | InsertAuditLogs ctx audit_log

fun exec :: "statement \<Rightarrow> db \<Rightarrow> error + db" where
  "exec (CreateUser c u) d = create_user c u d"
| "exec (DeleteUser u) d = delete_user u d"
| "exec (InsertProfiles c r) d = insert_profiles c r d"
| "exec (UpdateProfiles c wh upd) d = update_profiles c wh upd d"
| "exec (InsertTransactions c r) d = insert_transactions c r d"
| "exec (UpdateTransactions c wh upd) d = update_transactions c wh upd d"
| "exec (DeleteTransactions c wh) d = delete_transactions c wh d"
| "exec (InsertAuditLogs c r) d = insert_audit_logs c r d"

text \<open>
  A balance change: the profile's \<open>id\<close>, the old and the new balance of a row that an
  UPDATE of \<open>profiles\<close> wrote with a different balance. \<open>committed_changes\<close> are the
  balance changes a statement makes in the state it runs in.
\<close>

type_synonym balance_change = "uuid option \<times> numeric option \<times> numeric option"

definition balance_changes :: "(profile \<times> profile) list \<Rightarrow> balance_change list" where
  "balance_changes fired =
     map (\<lambda>(OLD, NEW). (p_id NEW, p_balance OLD, p_balance NEW))
       (filter (\<lambda>(OLD, NEW). p_balance OLD \<noteq> p_balance NEW) fired)"

fun committed_changes :: "statement \<Rightarrow> db \<Rightarrow> balance_change list" where
  "committed_changes (UpdateProfiles c wh upd) d =
     (case update_profiles_rows c d wh upd [] [] (profiles d) of
        Inl e \<Rightarrow> []
      | Inr (rows, fired) \<Rightarrow> balance_changes fired)"
| "committed_changes s d = []"

text \<open>
  A history pairs the database with the balance changes committed so far; an aborted
  statement adds none.
\<close>

definition step :: "db \<times> balance_change list \<Rightarrow> statement \<Rightarrow> db \<times> balance_change list" where
  "step dh s =
     (case run_statement (fst dh) (exec s) of
        (Some e, d') \<Rightarrow> (d', snd dh)
      | (None, d') \<Rightarrow> (d', snd dh @ committed_changes s (fst dh)))"

definition empty_db :: db where
  "empty_db = \<lparr>users = [], profiles = [], transactions = [], audit_logs = []\<rparr>"

definition run_statements :: "statement list \<Rightarrow> db \<times> balance_change list" where
  "run_statements ss = foldl step (empty_db, []) ss"

text \<open>
  The balance changes of the identities that exist: as above, but the committed
  deletion of an identity takes its balance changes out of the history, as it takes
  its profile out of the table.
\<close>

fun surviving :: "statement \<Rightarrow> balance_change list \<Rightarrow> balance_change list" where
  "surviving (DeleteUser u) h = filter (\<lambda>ch. fst ch \<noteq> Some u) h"
| "surviving s h = h"

definition step_live :: "db \<times> balance_change list \<Rightarrow> statement \<Rightarrow> db \<times> balance_change list" where
  "step_live dh s =
     (case run_statement (fst dh) (exec s) of
        (Some e, d') \<Rightarrow> (d', snd dh)
      | (None, d') \<Rightarrow> (d', surviving s (snd dh) @ committed_changes s (fst dh)))"

definition run_statements_live :: "statement list \<Rightarrow> db \<times> balance_change list" where
  "run_statements_live ss = foldl step_live (empty_db, []) ss"

text \<open>
  What an audit row says, apart from its own \<open>id\<close> and time, and what the row of a
  balance change must say.
\<close>

type_synonym audit_entry =
  "uuid option \<times> string option \<times> string option \<times> jsonb option \<times> jsonb option"

definition logged_entry :: "audit_log \<Rightarrow> audit_entry" where
  "logged_entry a = (a_user_id a, a_action a, a_table_name a, a_old_values a, a_new_values a)"

definition expected_entry :: "balance_change \<Rightarrow> audit_entry" where
  "expected_entry ch =
     (case ch of (u, old, new) \<Rightarrow>
        (u, Some ''UPDATE'', Some ''profiles'',
         Some (JObject [(''balance'', numeric_to_jsonb old)]),
         Some (JObject [(''balance'', numeric_to_jsonb new)])))"

section \<open>The dashboard\<close>

text \<open>
  The state of the \<open>Dashboard\<close> component: \<open>user\<close> and \<open>profile\<close> of \<open>useAuth()\<close>, the
  \<open>transactions\<close> and \<open>loading\<close> state variables, the toasts shown, what
  \<open>console.error\<close> wrote, and the data-access calls issued so far. (\<open>showBalance\<close> only
  masks the balance on screen.) \<open>error.message\<close> is kept as the error it is read from.
\<close>

datatype js_text = Text string | MessageOf error

record toast =
  title :: string
  description :: js_text
  variant :: string

datatype api_call =
    SelectTransactions "uuid option"
  | InsertTransaction transaction
  | SelectProfile uuid

record dashboard =
  ui_user :: "auth_user option"
  ui_profile :: "profile option"
  ui_transactions :: "transaction list"
  ui_loading :: bool
  ui_toasts :: "toast list"
  ui_console :: "(string \<times> error) list"
  ui_requests :: "api_call list"

text \<open>The value an \<open>async\<close> handler's promise resolves to.\<close>

datatype js_value = Undefined | JsString string

text \<open>
  \<open>supabase.from('transactions').select('*').eq('user_id', uid)
  .order('created_at', { ascending: false }).limit(10)\<close>, answered with
  \<open>{ data, error }\<close>. An \<open>undefined\<close> filter value is sent as the text
  \<open>undefined\<close>, which is no uuid.
\<close>

definition select_recent_transactions ::
  "ctx \<Rightarrow> uuid option \<Rightarrow> db \<Rightarrow> transaction list option \<times> error option" where
  "select_recent_transactions c uid d =
     (case request_failure c of
        Some e \<Rightarrow> (None, Some e)
      | None \<Rightarrow>
          (case uid of
             None \<Rightarrow> (None, Some (InvalidTextRepresentation ''undefined''))
           | Some u \<Rightarrow>
               (Some (take 10 (order_by_created_at_desc
                  (select_transactions c (\<lambda>r. is_true (sql_eq (t_user_id r) (Some u))) d))),
                None)))"

definition fetchTransactions :: "ctx \<Rightarrow> db \<Rightarrow> dashboard \<Rightarrow> dashboard" where
  "fetchTransactions c d ui =
     (let uid = map_option u_id (ui_user ui);
          ui1 = ui\<lparr>ui_requests := ui_requests ui @ [SelectTransactions uid]\<rparr>
      in case select_recent_transactions c uid d of
           (data, Some error) \<Rightarrow>
             ui1\<lparr>ui_console := ui_console ui1 @ [(''Error fetching transactions:'', error)]\<rparr>
         | (data, None) \<Rightarrow>
             ui1\<lparr>ui_transactions := (case data of None \<Rightarrow> [] | Some rows \<Rightarrow> rows)\<rparr>)"

text \<open>
  Modelled from the spec: \<open>getProfile\<close> and \<open>refreshProfile\<close> live in \<open>AuthContext\<close>,
  which is not among the sources. The spec: "read-then-cache-in-memory the caller's
  own profile row; no server-side caching: each call is a fresh read". A failed read
  is taken to leave the cached profile as it is.
\<close>

definition getProfile :: "ctx \<Rightarrow> uuid \<Rightarrow> db \<Rightarrow> error + profile option" where
  "getProfile c uid d =
     (case request_failure c of
        Some e \<Rightarrow> Inl e
      | None \<Rightarrow> Inr (find (\<lambda>p. profiles_policy c p \<and> p_id p = Some uid) (profiles d)))"

definition refreshProfile :: "ctx \<Rightarrow> db \<Rightarrow> dashboard \<Rightarrow> dashboard" where
  "refreshProfile c d ui =
     (case ui_user ui of
        None \<Rightarrow> ui
      | Some u \<Rightarrow>
          (let ui1 = ui\<lparr>ui_requests := ui_requests ui @ [SelectProfile (u_id u)]\<rparr>
           in case getProfile c (u_id u) d of
                Inl e \<Rightarrow> ui1
              | Inr p \<Rightarrow> ui1\<lparr>ui_profile := p\<rparr>))"

text \<open>The column defaults of \<open>transactions\<close>.\<close>

definition transactions_defaults :: "ctx \<Rightarrow> transaction" where
  "transactions_defaults c =
     \<lparr>t_id = Some (gen_random_uuid c 0), t_user_id = None, t_type = None, t_amount = None,
      t_recipient_account = None, t_recipient_name = None, t_recipient_bank = None,
      t_status = Some ''pending'', t_reference = Some (gen_random_uuid c 1),
      t_description = None, t_created_at = Some (now c)\<rparr>"

text \<open>The row \<open>handleVerificationPayment\<close> sends, with the defaults of the columns it omits.\<close>

definition verification_payment :: "ctx \<Rightarrow> auth_user \<Rightarrow> transaction" where
  "verification_payment c user =
     (transactions_defaults c)
       \<lparr>t_user_id := Some (u_id user),
        t_type := Some ''verification_payment'',
        t_amount := Some 6000,
        t_recipient_account := Some ''9163110673'',
        t_recipient_name := Some ''Abdullahi'',
        t_recipient_bank := Some ''Opay'',
        t_status := Some ''pending'',
        t_description := Some ''Account verification payment to enable withdrawals''\<rparr>"

text \<open>\<open>supabase.from('transactions').insert(row)\<close>, answered with \<open>{ error }\<close>.\<close>

definition supabase_insert_transactions :: "ctx \<Rightarrow> transaction \<Rightarrow> db \<Rightarrow> error option \<times> db" where
  "supabase_insert_transactions c NEW d =
     (case request_failure c of
        Some e \<Rightarrow> (Some e, d)
      | None \<Rightarrow> run_statement d (insert_transactions c NEW))"

text \<open>The naira sign, in UTF-8.\<close>

definition naira :: string where
  "naira = [CHR 0xE2, CHR 0x82, CHR 0xA6]"

definition payment_required_toast :: toast where
  "payment_required_toast =
     \<lparr>title = ''Verification Payment Required'',
      description = Text (''Please pay '' @ naira @
        ''6,000 to Account: 9163110673 (Abdullahi - Opay) to verify your account and enable withdrawals.''),
      variant = ''default''\<rparr>"

definition error_toast :: "error \<Rightarrow> toast" where
  "error_toast error = \<lparr>title = ''Error'', description = MessageOf error, variant = ''destructive''\<rparr>"

text \<open>
  \<open>handleVerificationPayment\<close>. The three requests it issues (the insert, the reload
  of the transactions, the reload of the profile) each have their own context. The
  two reloads are started without \<open>await\<close>; their effects are composed here in the
  order they are started. The handler has no \<open>return\<close> with a value: on every path
  its promise resolves to \<open>undefined\<close>.
\<close>

definition handleVerificationPayment ::
  "ctx \<Rightarrow> ctx \<Rightarrow> ctx \<Rightarrow> db \<Rightarrow> dashboard \<Rightarrow> db \<times> dashboard \<times> js_value" where
  "handleVerificationPayment ins sel ref d ui =
     (case (ui_user ui, ui_profile ui) of
        (Some user, Some profile) \<Rightarrow>
          (let row = verification_payment ins user;
               ui1 = ui\<lparr>ui_loading := True,
                        ui_requests := ui_requests ui @ [InsertTransaction row]\<rparr>
           in case supabase_insert_transactions ins row d of
                (Some error, d') \<Rightarrow>
                  (d', ui1\<lparr>ui_toasts := ui_toasts ui1 @ [error_toast error],
                            ui_loading := False\<rparr>, Undefined)
              | (None, d') \<Rightarrow>
                  (let ui2 = ui1\<lparr>ui_toasts := ui_toasts ui1 @ [payment_required_toast]\<rparr>;
                       ui3 = fetchTransactions sel d' ui2;
                       ui4 = refreshProfile ref d' ui3
                   in (d', ui4\<lparr>ui_loading := False\<rparr>, Undefined)))
      | _ \<Rightarrow> (d, ui, Undefined))"

text \<open>
  The audit row of one balance change, written out column by column: what the
  theorems compare the trigger's row with.
\<close>

definition balance_audit_row ::
  "ctx \<Rightarrow> nat \<Rightarrow> string \<Rightarrow> string \<Rightarrow> profile \<Rightarrow> profile \<Rightarrow> audit_log" where
  "balance_audit_row c k op tbl OLD NEW =
     \<lparr>a_id = Some (gen_random_uuid c k), a_user_id = p_id NEW, a_action = Some op,
      a_table_name = Some tbl,
      a_old_values = Some (JObject [(''balance'',
         (case p_balance OLD of None \<Rightarrow> JNull | Some x \<Rightarrow> JNumber x))]),
      a_new_values = Some (JObject [(''balance'',
         (case p_balance NEW of None \<Rightarrow> JNull | Some x \<Rightarrow> JNumber x))]),
      a_ip_address = None, a_user_agent = None, a_created_at = Some (now c)\<rparr>"

text \<open>
  The profile row of a new identity, written out column by column: what the theorems
  compare the trigger's row with.
\<close>

definition new_profile :: "ctx \<Rightarrow> auth_user \<Rightarrow> profile" where
  "new_profile c NEW =
     \<lparr>p_id = Some (u_id NEW), p_phone_number = u_phone NEW,
      p_full_name = Some (case jsonb_field_text c (u_raw_user_meta_data NEW) ''full_name'' of
                            None \<Rightarrow> [] | Some s \<Rightarrow> s),
      p_balance = Some 100000, p_is_verified = Some False,
      p_has_paid_verification = Some False,
      p_created_at = Some (now c), p_updated_at = Some (now c)\<rparr>"

text \<open>
  The row of a verification payment, written out column by column: what the theorems
  compare the inserted row with.
\<close>

definition verification_payment_row :: "ctx \<Rightarrow> uuid \<Rightarrow> transaction" where
  "verification_payment_row c owner =
     \<lparr>t_id = Some (gen_random_uuid c 0), t_user_id = Some owner,
      t_type = Some ''verification_payment'', t_amount = Some 6000,
      t_recipient_account = Some ''9163110673'', t_recipient_name = Some ''Abdullahi'',
      t_recipient_bank = Some ''Opay'', t_status = Some ''pending'',
      t_reference = Some (gen_random_uuid c 1),
      t_description = Some ''Account verification payment to enable withdrawals'',
      t_created_at = Some (now c)\<rparr>"

text \<open>
  The invariant of a history: the audit log holds, in the order of the changes, one
  row of its own for every committed balance change, saying what \<open>expected_entry\<close>
  says.
\<close>

definition audited :: "db \<times> balance_change list \<Rightarrow> bool" where
  "audited dh \<longleftrightarrow> subseq (map expected_entry (snd dh)) (map logged_entry (audit_logs (fst dh)))"

section \<open>Sample data\<close>

text \<open>Concrete identities, sessions and database states, on which the theorems are run.\<close>

definition alice :: auth_user where
  "alice = \<lparr>u_id = ''alice'', u_phone = Some ''+2348000000001'',
            u_raw_user_meta_data = Some (JObject [(''full_name'', JString ''Alice A'')])\<rparr>"

definition session :: "uuid option \<Rightarrow> ctx" where
  "session uid =
     \<lparr>auth_uid = uid, now = 1000, gen_random_uuid = (\<lambda>k. replicate (Suc k) CHR ''x''),
      jsonb_out = (\<lambda>j. ''?''), request_failure = None\<rparr>"

definition alice_profile :: profile where
  "alice_profile =
     \<lparr>p_id = Some ''alice'', p_phone_number = Some ''+2348000000001'',
      p_full_name = Some ''Alice A'', p_balance = Some 100000, p_is_verified = Some False,
      p_has_paid_verification = Some False, p_created_at = Some 1000, p_updated_at = Some 1000\<rparr>"

definition alice_payment :: transaction where
  "alice_payment = verification_payment (session (Some ''alice'')) alice"

definition db_alice :: db where
  "db_alice = \<lparr>users = [alice], profiles = [alice_profile], transactions = [alice_payment],
     audit_logs = []\<rparr>"

definition later :: "uuid option \<Rightarrow> ctx" where
  "later uid = (session uid)\<lparr>now := 2000\<rparr>"

definition db_alice_5 :: db where
  "db_alice_5 =
     db_alice\<lparr>profiles := [alice_profile\<lparr>p_balance := Some 5, p_updated_at := Some 2000\<rparr>],
              audit_logs :=
                [\<lparr>a_id = Some ''x'', a_user_id = Some ''alice'', a_action = Some ''UPDATE'',
                  a_table_name = Some ''profiles'',
                  a_old_values = Some (JObject [(''balance'', JNumber 100000)]),
                  a_new_values = Some (JObject [(''balance'', JNumber 5)]),
                  a_ip_address = None, a_user_agent = None, a_created_at = Some 2000\<rparr>]\<rparr>"

definition carol :: auth_user where
  "carol = \<lparr>u_id = ''carol'', u_phone = Some ''+2348000000001'', u_raw_user_meta_data = None\<rparr>"

definition bob :: auth_user where
  "bob = \<lparr>u_id = ''bob'', u_phone = Some ''+2348000000002'',
          u_raw_user_meta_data = Some (JObject [])\<rparr>"

definition bob_profile :: profile where
  "bob_profile =
     \<lparr>p_id = Some ''bob'', p_phone_number = Some ''+2348000000002'',
      p_full_name = Some [], p_balance = Some 100000, p_is_verified = Some False,
      p_has_paid_verification = Some False, p_created_at = Some 1000, p_updated_at = Some 1000\<rparr>"

definition receipt :: "uuid \<Rightarrow> nat \<Rightarrow> transaction" where
  "receipt owner n =
     alice_payment\<lparr>t_id := Some (owner @ replicate n CHR ''i''), t_user_id := Some owner,
                   t_reference := Some (owner @ replicate n CHR ''r''),
                   t_created_at := Some (int n)\<rparr>"

definition db_busy :: db where
  "db_busy =
     \<lparr>users = [alice, bob], profiles = [alice_profile, bob_profile],
      transactions =
        [receipt ''alice'' 3, receipt ''alice'' 1, receipt ''alice'' 2, receipt ''bob'' 20,
         receipt ''alice'' 12, receipt ''alice'' 11, receipt ''alice'' 10, receipt ''alice'' 9,
         receipt ''alice'' 8, receipt ''alice'' 7, receipt ''alice'' 6, receipt ''alice'' 5,
         receipt ''alice'' 4],
      audit_logs = []\<rparr>"

definition dashboard_alice :: dashboard where
  "dashboard_alice =
     \<lparr>ui_user = Some alice, ui_profile = Some alice_profile, ui_transactions = [],
      ui_loading = False, ui_toasts = [], ui_console = [], ui_requests = []\<rparr>"

definition offline :: "uuid option \<Rightarrow> ctx" where
  "offline uid = (session uid)\<lparr>request_failure := Some (FetchError ''Failed to fetch'')\<rparr>"

definition db_new_alice :: db where
  "db_new_alice = db_alice\<lparr>transactions := []\<rparr>"

definition db_collide :: db where
  "db_collide =
     db_alice\<lparr>audit_logs :=
       [\<lparr>a_id = Some ''x'', a_user_id = Some ''alice'', a_action = Some ''NOTE'',
         a_table_name = Some ''profiles'', a_old_values = None, a_new_values = None,
         a_ip_address = None, a_user_agent = None, a_created_at = Some 1500\<rparr>]\<rparr>"

definition alice_history :: "statement list" where
  "alice_history =
     [CreateUser (session None) alice,
      InsertTransactions (session (Some ''alice'')) alice_payment,
      UpdateProfiles (later (Some ''alice'')) (\<lambda>r. True) (\<lambda>r. r\<lparr>p_balance := Some 5\<rparr>),
      UpdateProfiles (later (Some ''alice'')) (\<lambda>r. True) (\<lambda>r. r\<lparr>p_is_verified := Some False\<rparr>),
      UpdateProfiles (later (Some ''bob'')) (\<lambda>r. True) (\<lambda>r. r\<lparr>p_balance := Some 7\<rparr>)]"

section \<open>Unfolding rules\<close>

text \<open>The definitions by which the model is evaluated on the sample data.\<close>

lemmas sql_defs = sql_eq_def sql_le_def sql_gt_def sql_in_def is_true_def check_holds_def
  is_distinct_from_def coalesce_def

lemmas transactions_defs = validate_transaction_amount_def transactions_policy_def
  transactions_constraints_def transactions_keys_def write_transaction_def
  insert_transactions_def update_transactions_def delete_transactions_def
  select_transactions_def transactions_defaults_def verification_payment_def
  cast_amount_def decimal_15_2_def

lemmas profiles_defs = profiles_policy_def profiles_keys_def profiles_defaults_def
  insert_profiles_definer_def insert_profiles_def update_updated_at_column_def write_profile_def
  update_profiles_def jsonb_field_text_def handle_new_user_def create_user_def

lemmas audit_defs = audit_logs_keys_def audit_logs_defaults_def audit_logs_insert_policy_def
  insert_audit_logs_def jsonb_build_object_def numeric_to_jsonb_def log_balance_change_def

lemmas sample_defs = alice_def carol_def session_def later_def alice_profile_def
  alice_payment_def db_alice_def db_alice_5_def empty_db_def bob_def bob_profile_def
  receipt_def db_busy_def dashboard_alice_def offline_def db_new_alice_def

section \<open>The amount validator\<close>

lemma validate_rejects_iff:
  "(\<exists>e. validate_transaction_amount NEW = Inl e) \<longleftrightarrow>
   (\<exists>a. t_amount NEW = Some a \<and> (a \<le> 0 \<or> a > 100000000))"
  by (cases "t_amount NEW")
     (auto simp: validate_transaction_amount_def is_true_def sql_le_def sql_gt_def)

lemma validate_accepts:
  "t_amount NEW = Some a \<Longrightarrow> 0 < a \<Longrightarrow> a \<le> 100000000 \<Longrightarrow>
   validate_transaction_amount NEW = Inr NEW"
  by (simp add: validate_transaction_amount_def is_true_def sql_le_def sql_gt_def)

lemma decimal_15_2_error:
  "decimal_15_2 a = Inl e \<Longrightarrow> e = NumericValueOutOfRange ''numeric field overflow''"
  by (auto simp: decimal_15_2_def Let_def split: if_splits)

lemma decimal_15_2_nonneg:
  assumes "0 \<le> a"
  shows "decimal_15_2 a = Inr r \<longleftrightarrow> a < 10 ^ 13 - 1 / 200 \<and> r = of_int \<lfloor>a * 100 + 1 / 2\<rfloor> / 100"
proof -
  have h: "0 \<le> \<lfloor>a * 100 + 1 / 2\<rfloor>"
    using assms by (simp add: le_floor_iff)
  have "(10 ^ 15 \<le> \<lfloor>a * 100 + 1 / 2\<rfloor>) \<longleftrightarrow> (10 ^ 13 - 1 / 200 \<le> a)"
    by (simp add: le_floor_iff) linarith
  with h assms show ?thesis
    by (auto simp: decimal_15_2_def Let_def)
qed

lemma decimal_15_2_neg:
  assumes "a < 0"
  shows "decimal_15_2 a = Inr r \<longleftrightarrow> - (10 ^ 13 - 1 / 200) < a \<and> r = - of_int \<lfloor>- a * 100 + 1 / 2\<rfloor> / 100"
proof -
  have h: "0 \<le> \<lfloor>- a * 100 + 1 / 2\<rfloor>"
    using assms by (simp add: le_floor_iff)
  have "(10 ^ 15 \<le> \<lfloor>- a * 100 + 1 / 2\<rfloor>) \<longleftrightarrow> (a \<le> - (10 ^ 13 - 1 / 200))"
    by (simp add: le_floor_iff) linarith
  with h assms show ?thesis
    by (auto simp: decimal_15_2_def Let_def)
qed

lemma stored_amount_rejected_iff:
  "(\<exists>r. decimal_15_2 a = Inr r \<and> (r \<le> 0 \<or> 100000000 < r)) \<longleftrightarrow>
   (- (10 ^ 13 - 1 / 200) < a \<and> a < 1 / 200) \<or>
   (100000000 + 1 / 200 \<le> a \<and> a < 10 ^ 13 - 1 / 200)"
proof (cases "0 \<le> a")
  case True
  let ?h = "\<lfloor>a * 100 + 1 / 2\<rfloor>"
  have lo: "(of_int ?h / 100 \<le> (0::rat)) \<longleftrightarrow> a < 1 / 200"
  proof -
    have "(of_int ?h / 100 \<le> (0::rat)) \<longleftrightarrow> ?h \<le> 0" by simp
    also have "\<dots> \<longleftrightarrow> a * 100 + 1 / 2 < 1" by (simp add: floor_le_iff)
    also have "\<dots> \<longleftrightarrow> a < 1 / 200" by linarith
    finally show ?thesis .
  qed
  have hi: "((100000000::rat) < of_int ?h / 100) \<longleftrightarrow> 100000000 + 1 / 200 \<le> a"
  proof -
    have "((100000000::rat) < of_int ?h / 100) \<longleftrightarrow> (10000000000::rat) < of_int ?h" by simp
    also have "\<dots> \<longleftrightarrow> (10000000000::int) < ?h"
      by (metis of_int_less_iff of_int_numeral)
    also have "\<dots> \<longleftrightarrow> 10000000000 + 1 \<le> a * 100 + 1 / 2" by (simp add: less_floor_iff)
    also have "\<dots> \<longleftrightarrow> 100000000 + 1 / 200 \<le> a" by linarith
    finally show ?thesis .
  qed
  have "(\<exists>r. decimal_15_2 a = Inr r \<and> (r \<le> 0 \<or> 100000000 < r)) \<longleftrightarrow>
      a < 10 ^ 13 - 1 / 200 \<and>
      (of_int ?h / 100 \<le> (0::rat) \<or> (100000000::rat) < of_int ?h / 100)"
    unfolding decimal_15_2_nonneg [OF True] by blast
  also have "\<dots> \<longleftrightarrow> a < 10 ^ 13 - 1 / 200 \<and> (a < 1 / 200 \<or> 100000000 + 1 / 200 \<le> a)"
    by (simp only: lo hi)
  also have "\<dots> \<longleftrightarrow> (- (10 ^ 13 - 1 / 200) < a \<and> a < 1 / 200) \<or>
      (100000000 + 1 / 200 \<le> a \<and> a < 10 ^ 13 - 1 / 200)"
    using True by auto
  finally show ?thesis .
next
  case False
  then have neg: "a < 0" by simp
  have "0 \<le> \<lfloor>- a * 100 + 1 / 2\<rfloor>"
    using neg by (simp add: le_floor_iff)
  then have le: "- of_int \<lfloor>- a * 100 + 1 / 2\<rfloor> / 100 \<le> (0::rat)" by simp
  have "(\<exists>r. decimal_15_2 a = Inr r \<and> (r \<le> 0 \<or> 100000000 < r)) \<longleftrightarrow>
      - (10 ^ 13 - 1 / 200) < a"
    unfolding decimal_15_2_neg [OF neg] using le by blast
  also have "\<dots> \<longleftrightarrow> (- (10 ^ 13 - 1 / 200) < a \<and> a < 1 / 200) \<or>
      (100000000 + 1 / 200 \<le> a \<and> a < 10 ^ 13 - 1 / 200)"
    using neg by auto
  finally show ?thesis .
qed

lemma write_transaction_raises_iff:
  "(\<exists>m. write_transaction c d others W = Inl (RaiseException m)) \<longleftrightarrow>
   (\<exists>a r. t_amount W = Some a \<and> decimal_15_2 a = Inr r \<and> (r \<le> 0 \<or> 100000000 < r))"
proof (cases "t_amount W")
  case None
  then show ?thesis
    by (auto simp: write_transaction_def cast_amount_def validate_transaction_amount_def
          transactions_constraints_def transactions_keys_def sql_defs
        split: sum.splits option.splits if_splits)
next
  case (Some a)
  show ?thesis
  proof (cases "decimal_15_2 a")
    case (Inl e)
    with Some decimal_15_2_error [OF Inl] show ?thesis
      by (simp add: write_transaction_def cast_amount_def)
  next
    case (Inr r)
    with Some show ?thesis
      by (auto simp: write_transaction_def cast_amount_def validate_transaction_amount_def
            transactions_constraints_def transactions_keys_def sql_defs
          split: sum.splits option.splits if_splits)
  qed
qed

lemma write_transaction_Inr:
  assumes "write_transaction c d others W = Inr NEW"
  shows "transactions_policy c W"
    and "\<exists>a r. t_amount W = Some a \<and> decimal_15_2 a = Inr r \<and> 0 < r \<and> r \<le> 100000000 \<and>
           NEW = W\<lparr>t_amount := Some r\<rparr>"
  using assms
  by (auto simp: write_transaction_def cast_amount_def validate_transaction_amount_def
        transactions_constraints_def transactions_policy_def sql_defs
      split: sum.splits option.splits if_splits)

lemma stored_amount_iff:
  "stored_amount W = Some r \<longleftrightarrow> (\<exists>a. t_amount W = Some a \<and> decimal_15_2 a = Inr r)"
  by (auto simp: stored_amount_def cast_amount_def split: option.splits sum.splits)

lemma stored_amount_thresholds:
  "(\<exists>r. stored_amount W = Some r \<and> (r \<le> 0 \<or> 100000000 < r)) \<longleftrightarrow>
   (\<exists>a. t_amount W = Some a \<and>
      ((- (10 ^ 13 - 1 / 200) < a \<and> a < 1 / 200) \<or>
       (100000000 + 1 / 200 \<le> a \<and> a < 10 ^ 13 - 1 / 200)))"
proof -
  have "(\<exists>r. stored_amount W = Some r \<and> (r \<le> 0 \<or> 100000000 < r)) \<longleftrightarrow>
      (\<exists>a. t_amount W = Some a \<and> (\<exists>r. decimal_15_2 a = Inr r \<and> (r \<le> 0 \<or> 100000000 < r)))"
    unfolding stored_amount_iff by blast
  then show ?thesis
    unfolding stored_amount_rejected_iff .
qed

lemma write_raises_stored:
  "(\<exists>m. write_transaction c d others W = Inl (RaiseException m)) \<longleftrightarrow>
   (\<exists>r. stored_amount W = Some r \<and> (r \<le> 0 \<or> 100000000 < r))"
  unfolding write_transaction_raises_iff stored_amount_iff by blast

lemma write_commits_stored:
  assumes "write_transaction c d others W = Inr NEW"
  shows "\<exists>r. stored_amount W = Some r \<and> 0 < r \<and> r \<le> 100000000 \<and> NEW = W\<lparr>t_amount := Some r\<rparr>"
  using write_transaction_Inr(2) [OF assms] unfolding stored_amount_iff by blast

lemma insert_raises_iff:
  "(\<exists>m. run_statement d (insert_transactions c W) = (Some (RaiseException m), d)) \<longleftrightarrow>
   (\<exists>m. write_transaction c d (transactions d) W = Inl (RaiseException m))"
  by (auto simp: run_statement_def insert_transactions_def split: sum.splits)

lemma insert_commits:
  assumes "run_statement d (insert_transactions c W) = (None, d')"
  shows "\<exists>r. stored_amount W = Some r \<and> 0 < r \<and> r \<le> 100000000 \<and>
           d' = d\<lparr>transactions := transactions d @ [W\<lparr>t_amount := Some r\<rparr>]\<rparr>"
proof -
  from assms obtain NEW where w: "write_transaction c d (transactions d) W = Inr NEW"
    and d': "d' = d\<lparr>transactions := transactions d @ [NEW]\<rparr>"
    by (auto simp: run_statement_def insert_transactions_def split: sum.splits)
  from write_commits_stored [OF w] d' show ?thesis by blast
qed

lemma update_rows_rejects:
  "OLD \<in> set todo \<Longrightarrow> transactions_policy c OLD \<Longrightarrow> wh OLD \<Longrightarrow>
   stored_amount (upd OLD) = Some r \<Longrightarrow> r \<le> 0 \<or> 100000000 < r \<Longrightarrow>
   \<exists>e. update_transactions_rows c d wh upd seen todo = Inl e"
proof (induction todo arbitrary: seen)
  case Nil
  then show ?case by simp
next
  case (Cons x rest)
  show ?case
  proof (cases "transactions_policy c x \<and> wh x")
    case False
    with Cons.prems have "OLD \<in> set rest" by auto
    from Cons.IH [OF this Cons.prems(2-5), of "seen @ [x]"] False show ?thesis by auto
  next
    case True
    show ?thesis
    proof (cases "write_transaction c d (seen @ rest) (upd x)")
      case (Inl e)
      with True show ?thesis by simp
    next
      case (Inr NEW)
      from write_commits_stored [OF Inr] Cons.prems(4,5) have "x \<noteq> OLD" by auto
      with Cons.prems have "OLD \<in> set rest" by auto
      from Cons.IH [OF this Cons.prems(2-5), of "seen @ [NEW]"] True Inr show ?thesis by simp
    qed
  qed
qed

lemma update_rows_raises:
  "update_transactions_rows c d wh upd seen todo = Inl (RaiseException m) \<Longrightarrow>
   \<exists>OLD \<in> set todo. transactions_policy c OLD \<and> wh OLD \<and>
      (\<exists>r. stored_amount (upd OLD) = Some r \<and> (r \<le> 0 \<or> 100000000 < r))"
proof (induction todo arbitrary: seen)
  case Nil
  then show ?case by simp
next
  case (Cons x rest)
  show ?case
  proof (cases "transactions_policy c x \<and> wh x")
    case False
    with Cons.prems have "update_transactions_rows c d wh upd (seen @ [x]) rest = Inl (RaiseException m)"
      by auto
    from Cons.IH [OF this] show ?thesis by auto
  next
    case True
    show ?thesis
    proof (cases "write_transaction c d (seen @ rest) (upd x)")
      case (Inl e)
      with True Cons.prems have "write_transaction c d (seen @ rest) (upd x) = Inl (RaiseException m)"
        by simp
      then have "\<exists>r. stored_amount (upd x) = Some r \<and> (r \<le> 0 \<or> 100000000 < r)"
        using write_raises_stored [of c d "seen @ rest" "upd x"] by blast
      with True show ?thesis by auto
    next
      case (Inr NEW)
      with True Cons.prems
      have "update_transactions_rows c d wh upd (seen @ [NEW]) rest = Inl (RaiseException m)"
        by simp
      from Cons.IH [OF this] show ?thesis by auto
    qed
  qed
qed

lemma update_rows_commits:
  "update_transactions_rows c d wh upd seen todo = Inr rows \<Longrightarrow>
   \<forall>OLD \<in> set todo. transactions_policy c OLD \<and> wh OLD \<longrightarrow>
      (\<exists>r. stored_amount (upd OLD) = Some r \<and> 0 < r \<and> r \<le> 100000000)"
proof (induction todo arbitrary: seen)
  case Nil
  then show ?case by simp
next
  case (Cons x rest)
  show ?case
  proof (cases "transactions_policy c x \<and> wh x")
    case False
    with Cons.prems have "update_transactions_rows c d wh upd (seen @ [x]) rest = Inr rows"
      by auto
    from Cons.IH [OF this] False show ?thesis by auto
  next
    case True
    with Cons.prems obtain NEW where w: "write_transaction c d (seen @ rest) (upd x) = Inr NEW"
      and rest: "update_transactions_rows c d wh upd (seen @ [NEW]) rest = Inr rows"
      by (auto split: sum.splits)
    from write_commits_stored [OF w] Cons.IH [OF rest] show ?thesis by auto
  qed
qed

lemma update_statement_rejects:
  assumes "OLD \<in> set (transactions d)" "transactions_policy c OLD" "wh OLD"
    and "stored_amount (upd OLD) = Some r" "r \<le> 0 \<or> 100000000 < r"
  shows "\<exists>e. run_statement d (update_transactions c wh upd) = (Some e, d)"
proof -
  have "\<exists>e. update_transactions_rows c d wh upd [] (transactions d) = Inl e"
    by (rule update_rows_rejects [where OLD=OLD and r=r and wh=wh and upd=upd]) (fact assms)+
  then obtain e where "update_transactions_rows c d wh upd [] (transactions d) = Inl e" ..
  then show ?thesis by (simp add: run_statement_def update_transactions_def)
qed

lemma update_statement_raises:
  assumes "run_statement d (update_transactions c wh upd) = (Some (RaiseException m), d')"
  shows "d' = d" and "\<exists>OLD \<in> set (transactions d). transactions_policy c OLD \<and> wh OLD \<and>
      (\<exists>r. stored_amount (upd OLD) = Some r \<and> (r \<le> 0 \<or> 100000000 < r))"
proof -
  from assms have r: "update_transactions_rows c d wh upd [] (transactions d) = Inl (RaiseException m)"
    and d': "d' = d"
    by (auto simp: run_statement_def update_transactions_def split: sum.splits)
  from d' show "d' = d" .
  from update_rows_raises [OF r] show "\<exists>OLD \<in> set (transactions d). transactions_policy c OLD \<and> wh OLD \<and>
      (\<exists>r. stored_amount (upd OLD) = Some r \<and> (r \<le> 0 \<or> 100000000 < r))" .
qed

lemma update_statement_commits:
  assumes "run_statement d (update_transactions c wh upd) = (None, d')"
  shows "\<forall>OLD \<in> set (transactions d). transactions_policy c OLD \<and> wh OLD \<longrightarrow>
      (\<exists>r. stored_amount (upd OLD) = Some r \<and> 0 < r \<and> r \<le> 100000000)"
proof -
  from assms obtain rows where "update_transactions_rows c d wh upd [] (transactions d) = Inr rows"
    by (auto simp: run_statement_def update_transactions_def split: sum.splits)
  then show ?thesis by (rule update_rows_commits)
qed

text \<open>
  Claim C1, as the code has it. The trigger rejects a row if and only if its amount is
  at most 0 or above 100,000,000, and accepts every row whose amount \<open>a\<close> has
  \<open>0 < a \<le> 100,000,000\<close>. The amount the trigger sees is the stored one: the written
  amount cast to \<open>DECIMAL(15,2)\<close>, rounded to two decimals. So a write is rejected by
  the validator if and only if the stored amount is at most 0 or above 100,000,000,
  which for the written amount means below 0.005 or from 100,000,000.005 up, short of
  the column's overflow. An \<open>INSERT\<close> is aborted with the validator's exception, the
  database as before, exactly in that case; one that commits has a stored amount in
  range and adds the one row, with that amount. An \<open>UPDATE\<close> that reaches a row whose
  new stored amount is out of range is aborted and leaves the database as before; one
  that is aborted with the validator's exception leaves the database as before and
  has reached such a row; one that commits has every reached row's new stored amount
  in range.
\<close>

theorem C1_amount_validator:
  "((\<exists>e. validate_transaction_amount NEW = Inl e) \<longleftrightarrow>
      (\<exists>a. t_amount NEW = Some a \<and> (a \<le> 0 \<or> 100000000 < a)))
   \<and> (\<forall>a. t_amount NEW = Some a \<and> 0 < a \<and> a \<le> 100000000 \<longrightarrow>
         validate_transaction_amount NEW = Inr NEW)
   \<and> ((\<exists>m. write_transaction c d others W = Inl (RaiseException m)) \<longleftrightarrow>
      (\<exists>r. stored_amount W = Some r \<and> (r \<le> 0 \<or> 100000000 < r)))
   \<and> ((\<exists>r. stored_amount W = Some r \<and> (r \<le> 0 \<or> 100000000 < r)) \<longleftrightarrow>
      (\<exists>a. t_amount W = Some a \<and>
         ((- (10 ^ 13 - 1 / 200) < a \<and> a < 1 / 200) \<or>
          (100000000 + 1 / 200 \<le> a \<and> a < 10 ^ 13 - 1 / 200))))
   \<and> ((\<exists>m. run_statement d (insert_transactions c W) = (Some (RaiseException m), d)) \<longleftrightarrow>
      (\<exists>r. stored_amount W = Some r \<and> (r \<le> 0 \<or> 100000000 < r)))
   \<and> (run_statement d (insert_transactions c W) = (None, d') \<longrightarrow>
        (\<exists>r. stored_amount W = Some r \<and> 0 < r \<and> r \<le> 100000000 \<and>
           d' = d\<lparr>transactions := transactions d @ [W\<lparr>t_amount := Some r\<rparr>]\<rparr>))
   \<and> (\<forall>OLD r. OLD \<in> set (transactions d) \<and> transactions_policy c OLD \<and> wh OLD \<and>
         stored_amount (upd OLD) = Some r \<and> (r \<le> 0 \<or> 100000000 < r) \<longrightarrow>
         (\<exists>e. run_statement d (update_transactions c wh upd) = (Some e, d)))
   \<and> (\<forall>m. run_statement d (update_transactions c wh upd) = (Some (RaiseException m), d'') \<longrightarrow>
        d'' = d \<and>
        (\<exists>OLD \<in> set (transactions d). transactions_policy c OLD \<and> wh OLD \<and>
           (\<exists>r. stored_amount (upd OLD) = Some r \<and> (r \<le> 0 \<or> 100000000 < r))))
   \<and> (run_statement d (update_transactions c wh upd) = (None, d'') \<longrightarrow>
        (\<forall>OLD \<in> set (transactions d). transactions_policy c OLD \<and> wh OLD \<longrightarrow>
           (\<exists>r. stored_amount (upd OLD) = Some r \<and> 0 < r \<and> r \<le> 100000000)))"
proof (intro conjI allI impI)
  show "(\<exists>e. validate_transaction_amount NEW = Inl e) \<longleftrightarrow>
      (\<exists>a. t_amount NEW = Some a \<and> (a \<le> 0 \<or> 100000000 < a))"
    by (rule validate_rejects_iff)
next
  fix a
  assume "t_amount NEW = Some a \<and> 0 < a \<and> a \<le> 100000000"
  then show "validate_transaction_amount NEW = Inr NEW"
    by (simp add: validate_accepts)
next
  show "(\<exists>m. write_transaction c d others W = Inl (RaiseException m)) \<longleftrightarrow>
      (\<exists>r. stored_amount W = Some r \<and> (r \<le> 0 \<or> 100000000 < r))"
    by (rule write_raises_stored)
next
  show "(\<exists>r. stored_amount W = Some r \<and> (r \<le> 0 \<or> 100000000 < r)) \<longleftrightarrow>
      (\<exists>a. t_amount W = Some a \<and>
         ((- (10 ^ 13 - 1 / 200) < a \<and> a < 1 / 200) \<or>
          (100000000 + 1 / 200 \<le> a \<and> a < 10 ^ 13 - 1 / 200)))"
    by (rule stored_amount_thresholds)
next
  show "(\<exists>m. run_statement d (insert_transactions c W) = (Some (RaiseException m), d)) \<longleftrightarrow>
      (\<exists>r. stored_amount W = Some r \<and> (r \<le> 0 \<or> 100000000 < r))"
    by (simp only: insert_raises_iff write_raises_stored)
next
  assume "run_statement d (insert_transactions c W) = (None, d')"
  then show "\<exists>r. stored_amount W = Some r \<and> 0 < r \<and> r \<le> 100000000 \<and>
           d' = d\<lparr>transactions := transactions d @ [W\<lparr>t_amount := Some r\<rparr>]\<rparr>"
    by (rule insert_commits)
next
  fix OLD r
  assume "OLD \<in> set (transactions d) \<and> transactions_policy c OLD \<and> wh OLD \<and>
         stored_amount (upd OLD) = Some r \<and> (r \<le> 0 \<or> 100000000 < r)"
  then show "\<exists>e. run_statement d (update_transactions c wh upd) = (Some e, d)"
    by (blast intro: update_statement_rejects)
next
  fix m
  assume h: "run_statement d (update_transactions c wh upd) = (Some (RaiseException m), d'')"
  show "d'' = d"
    by (rule update_statement_raises(1) [OF h])
  show "\<exists>OLD \<in> set (transactions d). transactions_policy c OLD \<and> wh OLD \<and>
           (\<exists>r. stored_amount (upd OLD) = Some r \<and> (r \<le> 0 \<or> 100000000 < r))"
    by (rule update_statement_raises(2) [OF h])
next
  assume "run_statement d (update_transactions c wh upd) = (None, d'')"
  then show "\<forall>OLD \<in> set (transactions d). transactions_policy c OLD \<and> wh OLD \<longrightarrow>
           (\<exists>r. stored_amount (upd OLD) = Some r \<and> 0 < r \<and> r \<le> 100000000)"
    by (rule update_statement_commits)
qed

lemma floor_rat_numeral:
  "\<lfloor>(numeral a :: rat) / numeral b\<rfloor> = numeral a div numeral b"
  "\<lfloor>(1 :: rat) / numeral b\<rfloor> = 1 div numeral b"
  by (metis floor_divide_of_int_eq of_int_numeral, metis floor_divide_of_int_eq of_int_numeral of_int_1)

lemmas cast_defs = cast_amount_def decimal_15_2_def floor_rat_numeral

lemma cast_verification_payment:
  "cast_amount (verification_payment c user) = Inr (verification_payment c user)"
  by (simp add: cast_defs verification_payment_def)

lemma stored_examples:
  "stored_amount (alice_payment\<lparr>t_amount := Some 0\<rparr>) = Some 0"
  "stored_amount (alice_payment\<lparr>t_amount := Some 100000001\<rparr>) = Some 100000001"
  "stored_amount (alice_payment\<lparr>t_amount := Some (1 / 250)\<rparr>) = Some 0"
  "stored_amount (alice_payment\<lparr>t_amount := Some (100000000 + 1 / 250)\<rparr>) = Some 100000000"
  "stored_amount alice_payment = Some 6000"
  by (simp_all add: stored_amount_def cast_defs alice_payment_def verification_payment_def)

text \<open>
  Of the written amount the claim fails in both directions: 0.004 is inside the range
  and the insert is rejected, because 0.00 is what would be stored; 100,000,000.004
  is above the range and the insert commits, storing 100,000,000.00.
\<close>

theorem C1_amount_validator_counterexample:
  "(0::rat) < 1 / 250 \<and> (1 / 250 :: rat) \<le> 100000000
   \<and> run_statement db_new_alice
       (insert_transactions (session (Some ''alice'')) (alice_payment\<lparr>t_amount := Some (1 / 250)\<rparr>)) =
       (Some (RaiseException ''Transaction amount must be positive''), db_new_alice)
   \<and> (100000000::rat) < 100000000 + 1 / 250
   \<and> run_statement db_new_alice
       (insert_transactions (session (Some ''alice''))
          (alice_payment\<lparr>t_amount := Some (100000000 + 1 / 250)\<rparr>)) =
       (None, db_new_alice\<lparr>transactions := [alice_payment\<lparr>t_amount := Some 100000000\<rparr>]\<rparr>)"
  by (simp add: run_statement_def sql_defs transactions_defs cast_defs sample_defs)

theorem C1_amount_validator_witness:
  "(\<exists>e. validate_transaction_amount (alice_payment\<lparr>t_amount := Some 0\<rparr>) = Inl e)
   \<and> validate_transaction_amount alice_payment = Inr alice_payment
   \<and> (\<exists>m. run_statement db_new_alice
          (insert_transactions (session (Some ''alice'')) (alice_payment\<lparr>t_amount := Some (1 / 250)\<rparr>)) =
        (Some (RaiseException m), db_new_alice))
   \<and> (\<exists>e. run_statement db_alice
          (update_transactions (session (Some ''alice'')) (\<lambda>r. True)
             (\<lambda>r. r\<lparr>t_amount := Some 100000001\<rparr>)) = (Some e, db_alice))
   \<and> (\<exists>r. stored_amount alice_payment = Some r \<and> 0 < r \<and> r \<le> 100000000)
   \<and> (\<exists>r. stored_amount (alice_payment\<lparr>t_status := Some ''completed''\<rparr>) = Some r \<and>
          0 < r \<and> r \<le> 100000000)"
proof -
  let ?c = "session (Some ''alice'')"
  let ?bad = "\<lambda>r. r\<lparr>t_amount := Some (100000001::rat)\<rparr>"
  let ?done = "\<lambda>r. r\<lparr>t_status := Some ''completed''\<rparr>"
  let ?small = "alice_payment\<lparr>t_amount := Some (1 / 250)\<rparr>"
  note zero = C1_amount_validator [where NEW="alice_payment\<lparr>t_amount := Some 0\<rparr>"]
  note good = C1_amount_validator [where NEW=alice_payment and W=alice_payment and c="?c"
      and d=db_new_alice and d'=db_alice]
  note small = C1_amount_validator [where W="?small" and c="?c" and d=db_new_alice]
  note upd_bad = C1_amount_validator [where c="?c" and d=db_alice and wh="\<lambda>r. True" and upd="?bad"]
  note upd_ok = C1_amount_validator [where c="?c" and d=db_alice and wh="\<lambda>r. True" and upd="?done"
      and d''="db_alice\<lparr>transactions := [alice_payment\<lparr>t_status := Some ''completed''\<rparr>]\<rparr>"]
  have row: "alice_payment \<in> set (transactions db_alice)"
    by (simp add: db_alice_def)
  have pol: "transactions_policy ?c alice_payment"
    by (simp add: transactions_policy_def alice_payment_def verification_payment_def
          transactions_defaults_def session_def alice_def sql_eq_def is_true_def)
  have amt: "t_amount alice_payment = Some 6000"
    by (simp add: alice_payment_def verification_payment_def)
  have ins: "run_statement db_new_alice (insert_transactions ?c alice_payment) = (None, db_alice)"
    by (simp add: run_statement_def sql_defs transactions_defs cast_defs sample_defs)
  have upd: "run_statement db_alice (update_transactions ?c (\<lambda>r. True) ?done) =
      (None, db_alice\<lparr>transactions := [alice_payment\<lparr>t_status := Some ''completed''\<rparr>]\<rparr>)"
    by (simp add: run_statement_def sql_defs transactions_defs cast_defs sample_defs)
  from zero have 1: "\<exists>e. validate_transaction_amount (alice_payment\<lparr>t_amount := Some 0\<rparr>) = Inl e"
    by simp
  from good amt have 2: "validate_transaction_amount alice_payment = Inr alice_payment"
    by simp
  from small stored_examples(3) have 3: "\<exists>m. run_statement db_new_alice
          (insert_transactions ?c ?small) = (Some (RaiseException m), db_new_alice)"
    by simp
  have reach: "alice_payment \<in> set (transactions db_alice) \<and> transactions_policy ?c alice_payment \<and>
      True \<and> stored_amount (alice_payment\<lparr>t_amount := Some 100000001\<rparr>) = Some 100000001 \<and>
      ((100000001::rat) \<le> 0 \<or> (100000000::rat) < 100000001)"
    by (simp add: row pol stored_examples(2))
  note u7 = upd_bad [THEN conjunct2, THEN conjunct2, THEN conjunct2, THEN conjunct2,
      THEN conjunct2, THEN conjunct2, THEN conjunct1, rule_format]
  have 4: "\<exists>e. run_statement db_alice
          (update_transactions ?c (\<lambda>r. True) ?bad) = (Some e, db_alice)"
    by (rule u7 [OF reach])
  note g6 = good [THEN conjunct2, THEN conjunct2, THEN conjunct2, THEN conjunct2,
      THEN conjunct2, THEN conjunct1, rule_format, OF ins]
  from g6 have 5: "\<exists>r. stored_amount alice_payment = Some r \<and> 0 < r \<and> r \<le> 100000000"
    by blast
  note u9 = upd_ok [THEN conjunct2, THEN conjunct2, THEN conjunct2, THEN conjunct2,
      THEN conjunct2, THEN conjunct2, THEN conjunct2, THEN conjunct2, rule_format]
  from pol have pol': "transactions_policy ?c alice_payment \<and> True" by simp
  have 6: "\<exists>r. stored_amount (alice_payment\<lparr>t_status := Some ''completed''\<rparr>) = Some r \<and>
          0 < r \<and> r \<le> 100000000"
    by (rule u9 [OF upd row pol'])
  from 1 2 3 4 5 6 show ?thesis by blast
qed

section \<open>The balance audit trigger\<close>

lemma log_balance_change_result:
  assumes "log_balance_change c k op tbl OLD NEW d = Inr d'"
  shows "d' = d\<lparr>audit_logs := audit_logs d @
           (if p_balance OLD \<noteq> p_balance NEW then [balance_audit_row c k op tbl OLD NEW] else [])\<rparr>"
  using assms
  by (auto simp: log_balance_change_def is_distinct_from_def insert_audit_logs_def
        audit_logs_defaults_def jsonb_build_object_def numeric_to_jsonb_def balance_audit_row_def
      split: if_splits option.splits)

lemma log_profile_balance_changes_result:
  "log_profile_balance_changes c k fired d = Inr d' \<Longrightarrow>
   d' = d\<lparr>audit_logs := audit_logs d @
          concat (map (\<lambda>(i, OLD, NEW).
                     if p_balance OLD \<noteq> p_balance NEW
                     then [balance_audit_row c i ''UPDATE'' ''profiles'' OLD NEW] else [])
                  (enumerate k fired))\<rparr>"
proof (induction fired arbitrary: k d)
  case Nil
  then show ?case by simp
next
  case (Cons x fired)
  obtain OLD NEW where x: "x = (OLD, NEW)" by (cases x)
  from Cons.prems x obtain d1 where
    d1: "log_balance_change c k ''UPDATE'' ''profiles'' OLD NEW d = Inr d1" and
    rest: "log_profile_balance_changes c (Suc k) fired d1 = Inr d'"
    by (auto split: sum.splits)
  note a = log_balance_change_result [OF d1]
  note b = Cons.IH [OF rest]
  show ?case
    by (simp add: b a x)
qed

lemma update_profiles_rows_result:
  "update_profiles_rows c d wh upd seen fired todo = Inr (rows, fired') \<Longrightarrow>
   fired' = fired @ map (\<lambda>r. (r, update_updated_at_column c (upd r)))
                      (filter (\<lambda>r. profiles_policy c r \<and> wh r) todo) \<and>
   rows = seen @ map (\<lambda>r. if profiles_policy c r \<and> wh r
                           then update_updated_at_column c (upd r) else r) todo"
proof (induction todo arbitrary: seen fired)
  case Nil
  then show ?case by simp
next
  case (Cons r todo)
  show ?case
  proof (cases "profiles_policy c r \<and> wh r")
    case True
    with Cons.prems obtain NEW where
      w: "write_profile c d (seen @ todo) (upd r) = Inr NEW" and
      rest: "update_profiles_rows c d wh upd (seen @ [NEW]) (fired @ [(r, NEW)]) todo = Inr (rows, fired')"
      by (auto split: sum.splits)
    from w have "NEW = update_updated_at_column c (upd r)"
      by (auto simp: write_profile_def Let_def split: if_splits option.splits)
    with Cons.IH [OF rest] True show ?thesis by simp
  next
    case False
    with Cons.prems have
      "update_profiles_rows c d wh upd (seen @ [r]) fired todo = Inr (rows, fired')"
      by auto
    from Cons.IH [OF this] False show ?thesis by auto
  qed
qed

lemma update_profiles_audit:
  assumes "update_profiles c wh upd d = Inr d'"
  shows "audit_logs d' = audit_logs d @
       concat (map (\<lambda>(i, OLD).
                  if p_balance OLD \<noteq> p_balance (upd OLD)
                  then [balance_audit_row c i ''UPDATE'' ''profiles'' OLD
                          (update_updated_at_column c (upd OLD))]
                  else [])
               (enumerate 0 (filter (\<lambda>r. profiles_policy c r \<and> wh r) (profiles d))))"
proof -
  from assms obtain rows fired where
    r: "update_profiles_rows c d wh upd [] [] (profiles d) = Inr (rows, fired)" and
    l: "log_profile_balance_changes c 0 fired (d\<lparr>profiles := rows\<rparr>) = Inr d'"
    by (auto simp: update_profiles_def split: sum.splits)
  from update_profiles_rows_result [OF r] have
    f: "fired = map (\<lambda>r. (r, update_updated_at_column c (upd r)))
                      (filter (\<lambda>r. profiles_policy c r \<and> wh r) (profiles d))" by simp
  have e: "enumerate k (map (\<lambda>r. (r, g r)) xs) = map (\<lambda>(i, r). (i, r, g r)) (enumerate k xs)"
    for k g and xs :: "profile list"
    by (induction xs arbitrary: k) auto
  show ?thesis
    by (subst log_profile_balance_changes_result [OF l])
       (simp add: f e comp_def case_prod_unfold update_updated_at_column_def cong: if_cong)
qed

text \<open>
  Claim C2. Run for one updated row, \<open>log_balance_change\<close> appends exactly one
  audit row when the old and the new balance differ (as \<open>IS DISTINCT FROM\<close> compares
  them, NULL being a value) and none when they are equal; the row carries the two
  balances as the JSON objects \<open>{"balance": old}\<close> and \<open>{"balance": new}\<close>, the
  operation \<open>TG_OP\<close> and the table \<open>TG_TABLE_NAME\<close>, and no other table changes. A
  committed \<open>UPDATE\<close> of \<open>profiles\<close> appends, in order, one such row, tagged
  \<open>UPDATE\<close> and \<open>profiles\<close>, for every row it updated with a different balance, and
  nothing else.
\<close>

theorem C2_balance_audit:
  "(log_balance_change c k op tbl OLD NEW d = Inr d' \<longrightarrow>
      audit_logs d' = audit_logs d @
        (if p_balance OLD \<noteq> p_balance NEW then [balance_audit_row c k op tbl OLD NEW] else [])
      \<and> users d' = users d \<and> profiles d' = profiles d \<and> transactions d' = transactions d)
   \<and> (update_profiles c wh upd d = Inr d'' \<longrightarrow>
      audit_logs d'' = audit_logs d @
        concat (map (\<lambda>(i, OLD).
                   if p_balance OLD \<noteq> p_balance (upd OLD)
                   then [balance_audit_row c i ''UPDATE'' ''profiles'' OLD
                           (update_updated_at_column c (upd OLD))]
                   else [])
                (enumerate 0 (filter (\<lambda>r. profiles_policy c r \<and> wh r) (profiles d)))))"
proof (intro conjI impI)
  assume h: "log_balance_change c k op tbl OLD NEW d = Inr d'"
  show "audit_logs d' = audit_logs d @
        (if p_balance OLD \<noteq> p_balance NEW then [balance_audit_row c k op tbl OLD NEW] else [])"
    by (subst log_balance_change_result [OF h]) simp
  show "users d' = users d" by (subst log_balance_change_result [OF h]) simp
  show "profiles d' = profiles d" by (subst log_balance_change_result [OF h]) simp
  show "transactions d' = transactions d" by (subst log_balance_change_result [OF h]) simp
next
  assume "update_profiles c wh upd d = Inr d''"
  then show "audit_logs d'' = audit_logs d @
        concat (map (\<lambda>(i, OLD).
                   if p_balance OLD \<noteq> p_balance (upd OLD)
                   then [balance_audit_row c i ''UPDATE'' ''profiles'' OLD
                           (update_updated_at_column c (upd OLD))]
                   else [])
                (enumerate 0 (filter (\<lambda>r. profiles_policy c r \<and> wh r) (profiles d))))"
    by (rule update_profiles_audit)
qed

lemma alice_sets_balance:
  "update_profiles (later (Some ''alice'')) (\<lambda>r. True) (\<lambda>r. r\<lparr>p_balance := Some 5\<rparr>) db_alice
   = Inr db_alice_5"
  by (simp add: sql_defs profiles_defs audit_defs sample_defs)

theorem C2_balance_audit_witness:
  "update_profiles (later (Some ''alice'')) (\<lambda>r. True) (\<lambda>r. r\<lparr>p_balance := Some 5\<rparr>) db_alice
     = Inr db_alice_5
   \<and> audit_logs db_alice_5 =
       [\<lparr>a_id = Some ''x'', a_user_id = Some ''alice'', a_action = Some ''UPDATE'',
         a_table_name = Some ''profiles'',
         a_old_values = Some (JObject [(''balance'', JNumber 100000)]),
         a_new_values = Some (JObject [(''balance'', JNumber 5)]),
         a_ip_address = None, a_user_agent = None, a_created_at = Some 2000\<rparr>]
   \<and> log_balance_change (later (Some ''alice'')) 0 ''UPDATE'' ''profiles''
         alice_profile (alice_profile\<lparr>p_is_verified := Some True\<rparr>) db_alice = Inr db_alice
   \<and> audit_logs db_alice = []"
proof -
  let ?c = "later (Some ''alice'')"
  let ?upd = "\<lambda>r. r\<lparr>p_balance := Some (5::rat)\<rparr>"
  have same: "log_balance_change ?c 0 ''UPDATE'' ''profiles''
         alice_profile (alice_profile\<lparr>p_is_verified := Some True\<rparr>) db_alice = Inr db_alice"
    by (simp add: log_balance_change_def is_distinct_from_def)
  note inst = C2_balance_audit [where c="?c" and k=0 and op="''UPDATE''" and tbl="''profiles''"
      and OLD=alice_profile and NEW="alice_profile\<lparr>p_is_verified := Some True\<rparr>"
      and d=db_alice and d'=db_alice and wh="\<lambda>r. True" and upd="?upd" and d''=db_alice_5]
  from inst same have 1: "audit_logs db_alice = []"
    by (simp add: db_alice_def)
  from inst alice_sets_balance have 2: "audit_logs db_alice_5 =
       [\<lparr>a_id = Some ''x'', a_user_id = Some ''alice'', a_action = Some ''UPDATE'',
         a_table_name = Some ''profiles'',
         a_old_values = Some (JObject [(''balance'', JNumber 100000)]),
         a_new_values = Some (JObject [(''balance'', JNumber 5)]),
         a_ip_address = None, a_user_agent = None, a_created_at = Some 2000\<rparr>]"
    by (simp add: sample_defs)
  from 1 2 same alice_sets_balance show ?thesis by simp
qed

section \<open>The identity-provisioning trigger\<close>

lemma handle_new_user_row:
  "(profiles_defaults c)
          \<lparr>p_id := Some (u_id NEW),
           p_phone_number := u_phone NEW,
           p_full_name :=
             Some (coalesce (jsonb_field_text c (u_raw_user_meta_data NEW) ''full_name'') [])\<rparr>
   = new_profile c NEW"
  by (simp add: profiles_defaults_def new_profile_def coalesce_def)

lemma handle_new_user_fails_iff:
  "(\<exists>e. handle_new_user c NEW (d\<lparr>users := users d @ [NEW]\<rparr>) = Inl e) \<longleftrightarrow>
   (Some (u_id NEW) \<in> set (map p_id (profiles d)) \<or>
    (u_phone NEW \<noteq> None \<and> u_phone NEW \<in> set (map p_phone_number (profiles d))))"
  unfolding handle_new_user_def handle_new_user_row
  by (auto simp: insert_profiles_definer_def profiles_keys_def new_profile_def
      split: option.splits if_splits)

lemma create_user_success:
  assumes "create_user c NEW d = Inr d'"
  shows "d' = d\<lparr>users := users d @ [NEW], profiles := profiles d @ [new_profile c NEW]\<rparr>"
    and "Some (u_id NEW) \<notin> set (map p_id (profiles d))"
  using assms
  unfolding create_user_def handle_new_user_def handle_new_user_row
  by (auto simp: insert_profiles_definer_def profiles_keys_def new_profile_def
      split: option.splits if_splits)

lemma create_user_exactly_one:
  assumes "create_user c NEW d = Inr d'"
  shows "filter (\<lambda>p. p_id p = Some (u_id NEW)) (profiles d') = [new_profile c NEW]"
proof -
  from create_user_success(2) [OF assms]
  have "filter (\<lambda>p. p_id p = Some (u_id NEW)) (profiles d) = []"
    by (force simp: filter_empty_conv intro: rev_image_eqI)
  then show ?thesis
    by (simp add: create_user_success(1) [OF assms] new_profile_def)
qed

text \<open>
  Claim C3. When the creation of an identity commits, the profiles table holds
  exactly one row for the new identity, the row appended by \<open>handle_new_user\<close>: its
  \<open>id\<close> is the identity's, its phone number is the identity's \<open>phone\<close>, its name is
  the \<open>full_name\<close> field of \<open>raw_user_meta_data\<close> (the string itself when the field is
  a JSON string, the empty string when the metadata is NULL or has no such field),
  its balance is 100000.00 and both flags are false. The profile insert fails exactly
  when a profile with that \<open>id\<close> or with that phone number exists; then the creation
  of the identity fails as a whole and the database is as before.
\<close>

theorem C3_identity_provisioning:
  "(run_statement d (create_user c NEW) = (None, d') \<longrightarrow>
      filter (\<lambda>p. p_id p = Some (u_id NEW)) (profiles d') = [new_profile c NEW]
      \<and> profiles d' = profiles d @ [new_profile c NEW]
      \<and> users d' = users d @ [NEW]
      \<and> transactions d' = transactions d \<and> audit_logs d' = audit_logs d)
   \<and> (\<forall>members s. u_raw_user_meta_data NEW = Some (JObject members) \<and>
          map_of members ''full_name'' = Some (JString s) \<longrightarrow>
          p_full_name (new_profile c NEW) = Some s)
   \<and> (u_raw_user_meta_data NEW = None \<or>
       (\<exists>members. u_raw_user_meta_data NEW = Some (JObject members) \<and>
          map_of members ''full_name'' = None) \<longrightarrow>
          p_full_name (new_profile c NEW) = Some [])
   \<and> ((\<exists>e. handle_new_user c NEW (d\<lparr>users := users d @ [NEW]\<rparr>) = Inl e) \<longleftrightarrow>
        (Some (u_id NEW) \<in> set (map p_id (profiles d)) \<or>
         (u_phone NEW \<noteq> None \<and> u_phone NEW \<in> set (map p_phone_number (profiles d)))))
   \<and> ((\<exists>e. handle_new_user c NEW (d\<lparr>users := users d @ [NEW]\<rparr>) = Inl e) \<longrightarrow>
        (\<exists>e. run_statement d (create_user c NEW) = (Some e, d)))"
proof (intro conjI impI allI)
  assume "run_statement d (create_user c NEW) = (None, d')"
  then have ok: "create_user c NEW d = Inr d'"
    by (auto simp: run_statement_def split: sum.splits)
  show "filter (\<lambda>p. p_id p = Some (u_id NEW)) (profiles d') = [new_profile c NEW]"
    by (rule create_user_exactly_one [OF ok])
  show "profiles d' = profiles d @ [new_profile c NEW]"
    by (simp add: create_user_success(1) [OF ok])
  show "users d' = users d @ [NEW]"
    by (simp add: create_user_success(1) [OF ok])
  show "transactions d' = transactions d"
    by (simp add: create_user_success(1) [OF ok])
  show "audit_logs d' = audit_logs d"
    by (simp add: create_user_success(1) [OF ok])
next
  fix members s
  assume "u_raw_user_meta_data NEW = Some (JObject members) \<and>
          map_of members ''full_name'' = Some (JString s)"
  then show "p_full_name (new_profile c NEW) = Some s"
    by (simp add: new_profile_def jsonb_field_text_def)
next
  assume "u_raw_user_meta_data NEW = None \<or>
       (\<exists>members. u_raw_user_meta_data NEW = Some (JObject members) \<and>
          map_of members ''full_name'' = None)"
  then show "p_full_name (new_profile c NEW) = Some []"
    by (auto simp: new_profile_def jsonb_field_text_def)
next
  show "(\<exists>e. handle_new_user c NEW (d\<lparr>users := users d @ [NEW]\<rparr>) = Inl e) \<longleftrightarrow>
        (Some (u_id NEW) \<in> set (map p_id (profiles d)) \<or>
         (u_phone NEW \<noteq> None \<and> u_phone NEW \<in> set (map p_phone_number (profiles d))))"
    by (rule handle_new_user_fails_iff)
next
  assume "\<exists>e. handle_new_user c NEW (d\<lparr>users := users d @ [NEW]\<rparr>) = Inl e"
  then show "\<exists>e. run_statement d (create_user c NEW) = (Some e, d)"
    by (auto simp: run_statement_def create_user_def)
qed

theorem C3_identity_provisioning_witness:
  "run_statement empty_db (create_user (session None) alice) = (None, db_alice\<lparr>transactions := []\<rparr>)
   \<and> filter (\<lambda>p. p_id p = Some ''alice'') (profiles (db_alice\<lparr>transactions := []\<rparr>)) =
       [alice_profile]
   \<and> new_profile (session None) alice = alice_profile
   \<and> p_full_name (new_profile (session None) alice) = Some ''Alice A''
   \<and> p_full_name (new_profile (later None) carol) = Some []
   \<and> (\<exists>e. run_statement db_alice (create_user (later None) carol) = (Some e, db_alice))"
proof -
  let ?d = "db_alice\<lparr>transactions := []\<rparr>"
  have run: "run_statement empty_db (create_user (session None) alice) = (None, ?d)"
    by (simp add: run_statement_def sql_defs profiles_defs sample_defs)
  have row: "new_profile (session None) alice = alice_profile"
    by (simp add: new_profile_def jsonb_field_text_def sample_defs)
  have meta: "u_raw_user_meta_data alice = Some (JObject [(''full_name'', JString ''Alice A'')])
      \<and> map_of [(''full_name'', JString ''Alice A'')] ''full_name'' = Some (JString ''Alice A'')"
    by (simp add: alice_def)
  have phone: "u_phone carol \<noteq> None \<and> u_phone carol \<in> set (map p_phone_number (profiles db_alice))"
    by (simp add: carol_def sample_defs)
  note a = C3_identity_provisioning [where d=empty_db and c="session None" and NEW=alice and d'="?d"]
  note b = C3_identity_provisioning [where d=db_alice and c="later None" and NEW=carol]
  from a run have "filter (\<lambda>p. p_id p = Some (u_id alice)) (profiles ?d) =
      [new_profile (session None) alice]"
    by blast
  moreover have "u_id alice = ''alice''"
    by (simp add: alice_def)
  ultimately have 1: "filter (\<lambda>p. p_id p = Some ''alice'') (profiles ?d) = [alice_profile]"
    by (simp only: row)
  from a meta have 2: "p_full_name (new_profile (session None) alice) = Some ''Alice A''"
    by blast
  from b have 3: "p_full_name (new_profile (later None) carol) = Some []"
    by (simp add: carol_def)
  from b phone have 4: "\<exists>e. run_statement db_alice (create_user (later None) carol) = (Some e, db_alice)"
    by blast
  from run row 1 2 3 4 show ?thesis by simp
qed

section \<open>Reading transactions\<close>

lemma created_desc_total: "created_desc a b \<or> created_desc b a"
  by (auto simp: created_desc_def split: option.splits)

lemma created_desc_trans: "created_desc a b \<Longrightarrow> created_desc b c \<Longrightarrow> created_desc a c"
  by (auto simp: created_desc_def split: option.splits)

lemma set_insert_created_desc: "set (insert_created_desc r xs) = insert r (set xs)"
  by (induction xs) auto

lemma length_insert_created_desc: "length (insert_created_desc r xs) = Suc (length xs)"
  by (induction xs) auto

lemma sorted_insert_created_desc:
  "sorted_wrt created_desc xs \<Longrightarrow> sorted_wrt created_desc (insert_created_desc r xs)"
proof (induction xs)
  case Nil
  then show ?case by simp
next
  case (Cons x xs)
  show ?case
  proof (cases "created_desc r x")
    case True
    with Cons.prems show ?thesis
      by (auto intro: created_desc_trans)
  next
    case False
    with created_desc_total [of r x] have "created_desc x r" by simp
    with False Cons show ?thesis
      by (auto simp: set_insert_created_desc)
  qed
qed

lemma set_order_by: "set (order_by_created_at_desc xs) = set xs"
  by (induction xs) (auto simp: order_by_created_at_desc_def set_insert_created_desc)

lemma length_order_by: "length (order_by_created_at_desc xs) = length xs"
  by (induction xs) (auto simp: order_by_created_at_desc_def length_insert_created_desc)

lemma sorted_order_by: "sorted_wrt created_desc (order_by_created_at_desc xs)"
  by (induction xs) (auto simp: order_by_created_at_desc_def sorted_insert_created_desc)

lemma limit_keeps_order: "sorted_wrt created_desc (take n (order_by_created_at_desc xs))"
proof -
  let ?ys = "order_by_created_at_desc xs"
  have "sorted_wrt created_desc (take n ?ys @ drop n ?ys)"
    by (simp add: sorted_order_by)
  then show ?thesis
    unfolding sorted_wrt_append by blast
qed

lemma limit_keeps_newest:
  assumes "r \<in> set xs" and "r \<notin> set (take n (order_by_created_at_desc xs))"
    and "r' \<in> set (take n (order_by_created_at_desc xs))"
  shows "created_desc r' r"
proof -
  let ?ys = "order_by_created_at_desc xs"
  from assms(1) have "r \<in> set (take n ?ys @ drop n ?ys)"
    by (simp add: set_order_by)
  with assms(2) have cut: "r \<in> set (drop n ?ys)"
    by (simp only: set_append Un_iff) blast
  have "sorted_wrt created_desc (take n ?ys @ drop n ?ys)"
    by (simp add: sorted_order_by)
  with cut assms(3) show ?thesis
    unfolding sorted_wrt_append by blast
qed

lemma select_owned:
  "select_transactions c (\<lambda>r. is_true (sql_eq (t_user_id r) (Some u))) d =
   filter (\<lambda>r. t_user_id r = Some u \<and> auth_uid c = Some u) (transactions d)"
  unfolding select_transactions_def
  by (rule filter_cong)
     (auto simp: transactions_policy_def sql_eq_def is_true_def split: option.splits)

lemma select_recent_ok:
  "request_failure c = None \<Longrightarrow>
   select_recent_transactions c (Some u) d =
   (Some (take 10 (order_by_created_at_desc
      (filter (\<lambda>r. t_user_id r = Some u \<and> auth_uid c = Some u) (transactions d)))), None)"
  by (simp add: select_recent_transactions_def select_owned)

text \<open>
  Claim C5. When the request goes through, \<open>fetchTransactions\<close> stores what the query
  answers: at most 10 rows (10, or all the caller's rows when there are fewer), in
  descending order of \<open>created_at\<close> (a row with no creation time first, as PostgreSQL
  orders NULLs), each a row of the table owned by the querying identity, and no row
  left out is newer than a row returned. With no row of the identity's the answer is
  the empty list and no error; nothing is logged and no toast is shown.
\<close>

theorem C5_recent_transactions:
  assumes "request_failure c = None" and "ui_user ui = Some user"
    and "rows = ui_transactions (fetchTransactions c d ui)"
    and "owned = filter (\<lambda>r. t_user_id r = Some (u_id user) \<and> auth_uid c = Some (u_id user))
                   (transactions d)"
  shows "select_recent_transactions c (Some (u_id user)) d = (Some rows, None)
    \<and> length rows = min 10 (length owned)
    \<and> sorted_wrt created_desc rows
    \<and> set rows \<subseteq> set owned
    \<and> (\<forall>r \<in> set owned. r \<notin> set rows \<longrightarrow> (\<forall>r' \<in> set rows. created_desc r' r))
    \<and> (owned = [] \<longrightarrow> rows = [])
    \<and> ui_console (fetchTransactions c d ui) = ui_console ui
    \<and> ui_toasts (fetchTransactions c d ui) = ui_toasts ui"
proof -
  let ?all = "order_by_created_at_desc owned"
  have sel: "select_recent_transactions c (Some (u_id user)) d = (Some (take 10 ?all), None)"
    using assms(1) by (simp add: select_recent_ok assms(4))
  have ui: "fetchTransactions c d ui =
      ui\<lparr>ui_requests := ui_requests ui @ [SelectTransactions (Some (u_id user))],
         ui_transactions := take 10 ?all\<rparr>"
    by (simp add: fetchTransactions_def Let_def assms(2) sel)
  have rows: "rows = take 10 ?all"
    by (simp add: assms(3) ui)
  have 1: "length rows = min 10 (length owned)"
    by (simp add: rows length_order_by min.commute)
  have 2: "sorted_wrt created_desc rows"
    unfolding rows by (rule limit_keeps_order)
  have 3: "set rows \<subseteq> set owned"
    unfolding rows using set_take_subset [of 10 ?all] by (simp add: set_order_by)
  have 4: "\<forall>r \<in> set owned. r \<notin> set rows \<longrightarrow> (\<forall>r' \<in> set rows. created_desc r' r)"
    unfolding rows by (blast intro: limit_keeps_newest)
  have 5: "owned = [] \<longrightarrow> rows = []"
    by (simp add: rows order_by_created_at_desc_def)
  from sel rows 1 2 3 4 5 ui show ?thesis by simp
qed

theorem C5_recent_transactions_witness:
  "length (ui_transactions (fetchTransactions (session (Some ''alice'')) db_busy dashboard_alice)) = 10
   \<and> sorted_wrt created_desc
        (ui_transactions (fetchTransactions (session (Some ''alice'')) db_busy dashboard_alice))
   \<and> select_recent_transactions (session (Some ''alice'')) (Some ''alice'') db_busy =
        (Some (ui_transactions (fetchTransactions (session (Some ''alice'')) db_busy dashboard_alice)),
         None)
   \<and> ui_transactions (fetchTransactions (session (Some ''alice'')) empty_db dashboard_alice) = []"
proof -
  let ?c = "session (Some ''alice'')"
  have nf: "request_failure ?c = None" by (simp add: session_def)
  have us: "ui_user dashboard_alice = Some alice" by (simp add: dashboard_alice_def)
  have id: "u_id alice = ''alice''" by (simp add: alice_def)
  have n: "length (filter (\<lambda>r. t_user_id r = Some (u_id alice) \<and> auth_uid ?c = Some (u_id alice))
             (transactions db_busy)) = 12"
    by (simp add: db_busy_def receipt_def alice_def session_def)
  have e: "filter (\<lambda>r. t_user_id r = Some (u_id alice) \<and> auth_uid ?c = Some (u_id alice))
             (transactions empty_db) = []"
    by (simp add: empty_db_def)
  note busy = C5_recent_transactions [OF nf us refl refl, of db_busy]
  note none = C5_recent_transactions [OF nf us refl refl, of empty_db]
  from busy n have 1:
    "length (ui_transactions (fetchTransactions ?c db_busy dashboard_alice)) = 10"
    by simp
  from busy have 2:
    "sorted_wrt created_desc (ui_transactions (fetchTransactions ?c db_busy dashboard_alice))"
    by blast
  from busy id have 3: "select_recent_transactions ?c (Some ''alice'') db_busy =
        (Some (ui_transactions (fetchTransactions ?c db_busy dashboard_alice)), None)"
    by simp
  from none e have 4: "ui_transactions (fetchTransactions ?c empty_db dashboard_alice) = []"
    by blast
  from 1 2 3 4 show ?thesis by blast
qed

text \<open>
  Claim C7. Whatever its WHERE clause, a read of \<open>transactions\<close> returns only rows
  whose owner is the caller. For identities \<open>U \<noteq> V\<close>, a read by \<open>U\<close> returns no row
  owned by \<open>V\<close>; asking for \<open>V\<close>'s rows, directly or through the dashboard's query,
  yields zero rows and no error.
\<close>

theorem C7_row_level_security:
  "(\<forall>r \<in> set (select_transactions c wh d). t_user_id r = auth_uid c \<and> auth_uid c \<noteq> None)
   \<and> (auth_uid c = Some U \<and> U \<noteq> V \<longrightarrow>
        (\<forall>r \<in> set (select_transactions c wh d). t_user_id r \<noteq> Some V)
        \<and> select_transactions c (\<lambda>r. is_true (sql_eq (t_user_id r) (Some V))) d = [])
   \<and> (auth_uid c = Some U \<and> U \<noteq> V \<and> request_failure c = None \<longrightarrow>
        select_recent_transactions c (Some V) d = (Some [], None))"
proof (intro conjI impI ballI)
  fix r assume "r \<in> set (select_transactions c wh d)"
  then have "transactions_policy c r" by (simp add: select_transactions_def)
  then show "t_user_id r = auth_uid c" "auth_uid c \<noteq> None"
    by (auto simp: transactions_policy_def sql_eq_def is_true_def split: option.splits)
next
  fix r assume uv: "auth_uid c = Some U \<and> U \<noteq> V" and "r \<in> set (select_transactions c wh d)"
  then have "transactions_policy c r" by (simp add: select_transactions_def)
  with uv show "t_user_id r \<noteq> Some V"
    by (auto simp: transactions_policy_def sql_eq_def is_true_def split: option.splits)
next
  assume "auth_uid c = Some U \<and> U \<noteq> V"
  then show "select_transactions c (\<lambda>r. is_true (sql_eq (t_user_id r) (Some V))) d = []"
    by (simp add: select_owned)
next
  assume "auth_uid c = Some U \<and> U \<noteq> V \<and> request_failure c = None"
  then show "select_recent_transactions c (Some V) d = (Some [], None)"
    by (simp add: select_recent_ok order_by_created_at_desc_def)
qed

theorem C7_row_level_security_witness:
  "receipt ''bob'' 20 \<in> set (transactions db_busy)
   \<and> select_transactions (session (Some ''alice''))
        (\<lambda>r. is_true (sql_eq (t_user_id r) (Some ''bob''))) db_busy = []
   \<and> select_recent_transactions (session (Some ''alice'')) (Some ''bob'') db_busy = (Some [], None)
   \<and> receipt ''bob'' 20 \<notin> set (select_transactions (session (Some ''alice'')) (\<lambda>r. True) db_busy)"
proof -
  let ?c = "session (Some ''alice'')"
  have a: "auth_uid ?c = Some ''alice'' \<and> ''alice'' \<noteq> ''bob'' \<and> request_failure ?c = None"
    by (simp add: session_def)
  have b: "receipt ''bob'' 20 \<in> set (transactions db_busy)"
    by (simp add: db_busy_def)
  have o: "t_user_id (receipt ''bob'' 20) = Some ''bob''"
    by (simp add: receipt_def)
  note rls = C7_row_level_security [where c="?c" and U="''alice''" and V="''bob''" and d=db_busy
      and wh="\<lambda>r. True"]
  from rls a have 1: "select_transactions ?c
        (\<lambda>r. is_true (sql_eq (t_user_id r) (Some ''bob''))) db_busy = []"
    by blast
  from rls a have 2: "select_recent_transactions ?c (Some ''bob'') db_busy = (Some [], None)"
    by blast
  from rls a o have 3: "receipt ''bob'' 20 \<notin> set (select_transactions ?c (\<lambda>r. True) db_busy)"
    by blast
  from b 1 2 3 show ?thesis by blast
qed

section \<open>The verification payment\<close>

lemma verification_payment_eq:
  "verification_payment c user = verification_payment_row c (u_id user)"
  by (simp add: verification_payment_def transactions_defaults_def verification_payment_row_def)

lemma supabase_insert_ok:
  assumes "supabase_insert_transactions c NEW d = (None, d')" and "cast_amount NEW = Inr NEW"
  shows "d' = d\<lparr>transactions := transactions d @ [NEW]\<rparr>" and "transactions_policy c NEW"
    and "request_failure c = None"
proof -
  from assms(1) have run: "run_statement d (insert_transactions c NEW) = (None, d')"
    and nf: "request_failure c = None"
    by (auto simp: supabase_insert_transactions_def run_statement_def split: option.splits)
  from nf show "request_failure c = None" .
  from run obtain r where w: "write_transaction c d (transactions d) NEW = Inr r"
    by (auto simp: run_statement_def insert_transactions_def split: sum.splits)
  from write_transaction_Inr(1) [OF w] show "transactions_policy c NEW" .
  from insert_commits [OF run] obtain x where
    x: "stored_amount NEW = Some x" "d' = d\<lparr>transactions := transactions d @ [NEW\<lparr>t_amount := Some x\<rparr>]\<rparr>"
    by blast
  from x(1) assms(2) have "NEW\<lparr>t_amount := Some x\<rparr> = NEW"
    by (simp add: stored_amount_def)
  with x(2) show "d' = d\<lparr>transactions := transactions d @ [NEW]\<rparr>" by simp
qed

lemma supabase_insert_failed:
  "supabase_insert_transactions c NEW d = (Some e, d') \<Longrightarrow> d' = d"
  by (auto simp: supabase_insert_transactions_def run_statement_def
      split: option.splits sum.splits)

lemma handleVerificationPayment_guard:
  "ui_user ui = None \<or> ui_profile ui = None \<Longrightarrow>
   handleVerificationPayment ins sel ref d ui = (d, ui, Undefined)"
  by (auto simp: handleVerificationPayment_def split: option.splits)

lemma handleVerificationPayment_rejected:
  assumes "ui_user ui = Some user" "ui_profile ui = Some prof"
    and "supabase_insert_transactions ins (verification_payment ins user) d = (Some e, d')"
  shows "handleVerificationPayment ins sel ref d ui =
     (d, ui\<lparr>ui_loading := False,
            ui_toasts := ui_toasts ui @ [error_toast e],
            ui_requests := ui_requests ui @ [InsertTransaction (verification_payment ins user)]\<rparr>,
      Undefined)"
  using assms supabase_insert_failed [OF assms(3)]
  by (simp add: handleVerificationPayment_def Let_def)

lemma handleVerificationPayment_inserted:
  assumes "ui_user ui = Some user" "ui_profile ui = Some prof"
    and "supabase_insert_transactions ins (verification_payment ins user) d = (None, d')"
  shows "handleVerificationPayment ins sel ref d ui =
     (d', (refreshProfile ref d' (fetchTransactions sel d'
             (ui\<lparr>ui_loading := True,
                 ui_requests := ui_requests ui @ [InsertTransaction (verification_payment ins user)],
                 ui_toasts := ui_toasts ui @ [payment_required_toast]\<rparr>)))
          \<lparr>ui_loading := False\<rparr>,
      Undefined)"
  using assms
  by (simp add: handleVerificationPayment_def Let_def)

lemma handleVerificationPayment_db:
  "fst (handleVerificationPayment ins sel ref d ui) = d \<or>
   (\<exists>user. ui_user ui = Some user \<and>
      fst (handleVerificationPayment ins sel ref d ui) =
        d\<lparr>transactions := transactions d @ [verification_payment ins user]\<rparr>)"
proof (cases "ui_user ui = None \<or> ui_profile ui = None")
  case True
  then show ?thesis by (simp add: handleVerificationPayment_guard)
next
  case False
  then obtain user prof where up: "ui_user ui = Some user" "ui_profile ui = Some prof" by auto
  obtain r d' where r: "supabase_insert_transactions ins (verification_payment ins user) d = (r, d')"
    by (cases "supabase_insert_transactions ins (verification_payment ins user) d")
  show ?thesis
  proof (cases r)
    case None
    with r have ok: "supabase_insert_transactions ins (verification_payment ins user) d = (None, d')"
      by simp
    from supabase_insert_ok(1) [OF ok cast_verification_payment] show ?thesis
      by (simp add: handleVerificationPayment_inserted [OF up ok] up)
  next
    case (Some e)
    with r have "supabase_insert_transactions ins (verification_payment ins user) d = (Some e, d')"
      by simp
    then show ?thesis
      by (simp add: handleVerificationPayment_rejected [OF up])
  qed
qed

lemma refreshProfile_frame:
  "ui_toasts (refreshProfile c d ui) = ui_toasts ui \<and>
   ui_transactions (refreshProfile c d ui) = ui_transactions ui \<and>
   ui_console (refreshProfile c d ui) = ui_console ui \<and>
   ui_user (refreshProfile c d ui) = ui_user ui"
  by (simp add: refreshProfile_def Let_def split: option.splits sum.splits)

lemma fetchTransactions_frame:
  "ui_toasts (fetchTransactions c d ui) = ui_toasts ui \<and>
   ui_profile (fetchTransactions c d ui) = ui_profile ui \<and>
   ui_loading (fetchTransactions c d ui) = ui_loading ui \<and>
   ui_user (fetchTransactions c d ui) = ui_user ui \<and>
   ui_requests (fetchTransactions c d ui) =
     ui_requests ui @ [SelectTransactions (map_option u_id (ui_user ui))]"
  by (simp add: fetchTransactions_def Let_def split: prod.splits option.splits)

lemma alice_pays:
  "supabase_insert_transactions (session (Some ''alice''))
     (verification_payment (session (Some ''alice'')) alice) db_new_alice = (None, db_alice)"
  by (simp add: supabase_insert_transactions_def run_statement_def sql_defs transactions_defs cast_defs
        sample_defs)

lemma alice_pays_handler:
  "fst (handleVerificationPayment (session (Some ''alice'')) sel ref db_new_alice dashboard_alice)
   = db_alice"
  by (simp add: handleVerificationPayment_inserted [OF _ _ alice_pays] dashboard_alice_def)

text \<open>
  Claim C4, as the code has it. With a user and a profile in the session, a call
  whose insert goes through appends exactly one row to \<open>transactions\<close>: type
  \<open>verification_payment\<close>, amount 6000, recipient account \<open>9163110673\<close>, recipient name
  \<open>Abdullahi\<close>, recipient bank \<open>Opay\<close>, status \<open>pending\<close>, owned by the caller, who is
  the session's user; no other table changes, the "Verification Payment Required"
  toast is shown and \<open>loading\<close> ends false. The handler resolves to \<open>undefined\<close>: the
  created row's identifier is not returned. When the write is rejected (by row-level
  security when the caller is not the row's owner; the validator always passes the
  amount 6000), the handler catches the error, shows it in an "Error" toast, inserts
  nothing and still resolves to \<open>undefined\<close>.
\<close>

theorem C4_verification_payment:
  assumes "ui_user ui = Some user" and "ui_profile ui = Some prof"
  shows
    "(supabase_insert_transactions ins (verification_payment ins user) d = (None, d') \<longrightarrow>
        handleVerificationPayment ins sel ref d ui =
          (d', snd (handleVerificationPayment ins sel ref d ui))
        \<and> transactions d' = transactions d @ [verification_payment_row ins (u_id user)]
        \<and> users d' = users d \<and> profiles d' = profiles d \<and> audit_logs d' = audit_logs d
        \<and> auth_uid ins = Some (u_id user)
        \<and> ui_toasts (fst (snd (handleVerificationPayment ins sel ref d ui))) =
            ui_toasts ui @ [payment_required_toast]
        \<and> ui_loading (fst (snd (handleVerificationPayment ins sel ref d ui))) = False
        \<and> snd (snd (handleVerificationPayment ins sel ref d ui)) = Undefined)
     \<and> (supabase_insert_transactions ins (verification_payment ins user) d = (Some e, d') \<longrightarrow>
          handleVerificationPayment ins sel ref d ui =
            (d, ui\<lparr>ui_loading := False,
                   ui_toasts := ui_toasts ui @ [error_toast e],
                   ui_requests := ui_requests ui @
                     [InsertTransaction (verification_payment_row ins (u_id user))]\<rparr>,
             Undefined))
     \<and> (request_failure ins = None \<and> auth_uid ins \<noteq> Some (u_id user) \<longrightarrow>
          supabase_insert_transactions ins (verification_payment ins user) d =
            (Some (RlsViolation ''transactions''), d))
     \<and> validate_transaction_amount (verification_payment ins user) =
          Inr (verification_payment_row ins (u_id user))"
proof (intro conjI impI)
  assume ok: "supabase_insert_transactions ins (verification_payment ins user) d = (None, d')"
  note h = handleVerificationPayment_inserted [OF assms ok, of sel ref]
  note d' = supabase_insert_ok(1) [OF ok cast_verification_payment]
  show "handleVerificationPayment ins sel ref d ui =
          (d', snd (handleVerificationPayment ins sel ref d ui))"
    by (simp add: h)
  show "transactions d' = transactions d @ [verification_payment_row ins (u_id user)]"
    by (simp add: d' verification_payment_eq)
  show "users d' = users d" "profiles d' = profiles d" "audit_logs d' = audit_logs d"
    by (simp_all add: d')
  from supabase_insert_ok(2) [OF ok cast_verification_payment] show "auth_uid ins = Some (u_id user)"
    by (auto simp: transactions_policy_def verification_payment_eq verification_payment_row_def
          sql_eq_def is_true_def split: option.splits)
  show "ui_toasts (fst (snd (handleVerificationPayment ins sel ref d ui))) =
            ui_toasts ui @ [payment_required_toast]"
    by (simp add: h refreshProfile_frame fetchTransactions_frame)
  show "ui_loading (fst (snd (handleVerificationPayment ins sel ref d ui))) = False"
    by (simp add: h)
  show "snd (snd (handleVerificationPayment ins sel ref d ui)) = Undefined"
    by (simp add: h)
next
  assume "supabase_insert_transactions ins (verification_payment ins user) d = (Some e, d')"
  from handleVerificationPayment_rejected [OF assms this, of sel ref]
  show "handleVerificationPayment ins sel ref d ui =
            (d, ui\<lparr>ui_loading := False,
                   ui_toasts := ui_toasts ui @ [error_toast e],
                   ui_requests := ui_requests ui @
                     [InsertTransaction (verification_payment_row ins (u_id user))]\<rparr>,
             Undefined)"
    by (simp add: verification_payment_eq)
next
  assume "request_failure ins = None \<and> auth_uid ins \<noteq> Some (u_id user)"
  then show "supabase_insert_transactions ins (verification_payment ins user) d =
            (Some (RlsViolation ''transactions''), d)"
    by (auto simp: supabase_insert_transactions_def run_statement_def insert_transactions_def
          write_transaction_def cast_defs validate_transaction_amount_def transactions_policy_def
          verification_payment_eq verification_payment_row_def sql_defs
        split: option.splits)
next
  show "validate_transaction_amount (verification_payment ins user) =
          Inr (verification_payment_row ins (u_id user))"
    by (simp add: validate_transaction_amount_def verification_payment_eq
          verification_payment_row_def sql_defs)
qed

text \<open>
  The claim as the spec states it fails: after a call that inserted the row with
  identifier \<open>x\<close> the handler's result is \<open>undefined\<close>, not \<open>x\<close>; and a write that
  row-level security rejects does not make the handler fail, it ends in a toast.
\<close>

theorem C4_verification_payment_counterexample:
  "fst (handleVerificationPayment (session (Some ''alice'')) (session (Some ''alice''))
          (session (Some ''alice'')) db_new_alice dashboard_alice) = db_alice
   \<and> map t_id (transactions db_alice) = [Some ''x'']
   \<and> snd (snd (handleVerificationPayment (session (Some ''alice'')) (session (Some ''alice''))
          (session (Some ''alice'')) db_new_alice dashboard_alice)) = Undefined
   \<and> snd (snd (handleVerificationPayment (session (Some ''alice'')) (session (Some ''alice''))
          (session (Some ''alice'')) db_new_alice dashboard_alice)) \<noteq> JsString ''x''
   \<and> handleVerificationPayment (session (Some ''bob'')) (session (Some ''bob''))
          (session (Some ''bob'')) db_new_alice dashboard_alice =
       (db_new_alice,
        dashboard_alice\<lparr>ui_toasts := [error_toast (RlsViolation ''transactions'')],
           ui_requests := [InsertTransaction (verification_payment (session (Some ''bob'')) alice)]\<rparr>,
        Undefined)"
proof -
  have r: "supabase_insert_transactions (session (Some ''bob''))
      (verification_payment (session (Some ''bob'')) alice) db_new_alice =
      (Some (RlsViolation ''transactions''), db_new_alice)"
    by (simp add: supabase_insert_transactions_def run_statement_def sql_defs transactions_defs cast_defs
        sample_defs)
  have 1: "map t_id (transactions db_alice) = [Some ''x'']"
    by (simp add: transactions_defs cast_defs sample_defs)
  have 2: "snd (snd (handleVerificationPayment (session (Some ''alice'')) (session (Some ''alice''))
          (session (Some ''alice'')) db_new_alice dashboard_alice)) = Undefined"
    by (simp add: handleVerificationPayment_inserted [OF _ _ alice_pays] dashboard_alice_def)
  have 3: "handleVerificationPayment (session (Some ''bob'')) (session (Some ''bob''))
          (session (Some ''bob'')) db_new_alice dashboard_alice =
       (db_new_alice,
        dashboard_alice\<lparr>ui_toasts := [error_toast (RlsViolation ''transactions'')],
           ui_requests := [InsertTransaction (verification_payment (session (Some ''bob'')) alice)]\<rparr>,
        Undefined)"
    by (simp add: handleVerificationPayment_rejected [OF _ _ r] dashboard_alice_def)
  from alice_pays_handler 1 2 3 show ?thesis by simp
qed

theorem C4_verification_payment_witness:
  "transactions db_alice = [verification_payment_row (session (Some ''alice'')) ''alice'']
   \<and> ui_toasts (fst (snd (handleVerificationPayment (session (Some ''alice''))
          (session (Some ''alice'')) (session (Some ''alice'')) db_new_alice dashboard_alice))) =
       [payment_required_toast]
   \<and> fst (handleVerificationPayment (session (Some ''alice''))
          (session (Some ''alice'')) (session (Some ''alice'')) db_new_alice dashboard_alice) = db_alice
   \<and> supabase_insert_transactions (session (Some ''bob''))
        (verification_payment (session (Some ''bob'')) alice) db_new_alice =
        (Some (RlsViolation ''transactions''), db_new_alice)"
proof -
  let ?c = "session (Some ''alice'')"
  let ?b = "session (Some ''bob'')"
  have u: "ui_user dashboard_alice = Some alice" and p: "ui_profile dashboard_alice = Some alice_profile"
    by (simp_all add: dashboard_alice_def)
  have nb: "request_failure ?b = None \<and> auth_uid ?b \<noteq> Some (u_id alice)"
    by (simp add: session_def alice_def)
  have i: "u_id alice = ''alice''" by (simp add: alice_def)
  have t0: "transactions db_new_alice = []" and ts0: "ui_toasts dashboard_alice = []"
    by (simp_all add: db_new_alice_def dashboard_alice_def)
  note ok = C4_verification_payment [OF u p, where ins="?c" and sel="?c" and ref="?c"
      and d=db_new_alice and d'=db_alice]
  note no = C4_verification_payment [OF u p, where ins="?b" and d=db_new_alice]
  from ok alice_pays t0 i
  have 1: "transactions db_alice = [verification_payment_row ?c ''alice'']"
    by simp
  from ok alice_pays ts0
  have 2: "ui_toasts (fst (snd (handleVerificationPayment ?c ?c ?c db_new_alice dashboard_alice))) =
       [payment_required_toast]"
    by simp
  from ok alice_pays
  have 3: "fst (handleVerificationPayment ?c ?c ?c db_new_alice dashboard_alice) = db_alice"
    by (metis fst_conv)
  from no nb
  have 4: "supabase_insert_transactions ?b (verification_payment ?b alice) db_new_alice =
        (Some (RlsViolation ''transactions''), db_new_alice)"
    by blast
  from 1 2 3 4 show ?thesis by blast
qed

text \<open>
  Claim C8. \<open>handleVerificationPayment\<close> leaves \<open>profiles\<close> (and \<open>auth.users\<close> and
  \<open>audit_logs\<close>) as they were, so a fresh read of any profile returns after the call
  what it returned before: a profile that showed \<open>has_paid_verification = false\<close>
  still shows it, with the same balance. The other client operation,
  \<open>fetchTransactions\<close>, only reads: it returns no database.
\<close>

theorem C8_profile_untouched:
  "profiles (fst (handleVerificationPayment ins sel ref d ui)) = profiles d
   \<and> users (fst (handleVerificationPayment ins sel ref d ui)) = users d
   \<and> audit_logs (fst (handleVerificationPayment ins sel ref d ui)) = audit_logs d
   \<and> getProfile c uid (fst (handleVerificationPayment ins sel ref d ui)) = getProfile c uid d
   \<and> (\<forall>p. getProfile c uid d = Inr (Some p) \<and> p_has_paid_verification p = Some False \<longrightarrow>
        (\<exists>p'. getProfile c uid (fst (handleVerificationPayment ins sel ref d ui)) = Inr (Some p')
           \<and> p_has_paid_verification p' = Some False \<and> p_balance p' = p_balance p))"
proof -
  let ?d' = "fst (handleVerificationPayment ins sel ref d ui)"
  from handleVerificationPayment_db [of ins sel ref d ui]
  have p: "profiles ?d' = profiles d" and u: "users ?d' = users d"
    and a: "audit_logs ?d' = audit_logs d"
    by auto
  have g: "getProfile c uid ?d' = getProfile c uid d"
    unfolding getProfile_def p by (rule refl)
  from p u a g show ?thesis by simp
qed

theorem C8_profile_untouched_witness:
  "getProfile (later (Some ''alice'')) ''alice'' db_new_alice = Inr (Some alice_profile)
   \<and> p_has_paid_verification alice_profile = Some False
   \<and> transactions (fst (handleVerificationPayment (session (Some ''alice''))
         (session (Some ''alice'')) (session (Some ''alice'')) db_new_alice dashboard_alice)) =
       [alice_payment]
   \<and> (\<exists>p'. getProfile (later (Some ''alice'')) ''alice''
         (fst (handleVerificationPayment (session (Some ''alice'')) (session (Some ''alice''))
            (session (Some ''alice'')) db_new_alice dashboard_alice)) = Inr (Some p')
        \<and> p_has_paid_verification p' = Some False \<and> p_balance p' = Some 100000)"
proof -
  let ?c = "session (Some ''alice'')"
  let ?d' = "fst (handleVerificationPayment ?c ?c ?c db_new_alice dashboard_alice)"
  have g: "getProfile (later (Some ''alice'')) ''alice'' db_new_alice = Inr (Some alice_profile)"
    by (simp add: getProfile_def profiles_policy_def sql_defs sample_defs)
  have f: "p_has_paid_verification alice_profile = Some False"
    and b: "p_balance alice_profile = Some 100000"
    by (simp_all add: alice_profile_def)
  have t: "transactions ?d' = [alice_payment]"
    by (simp add: alice_pays_handler db_alice_def)
  from C8_profile_untouched [of ?c ?c ?c db_new_alice dashboard_alice "later (Some ''alice'')" "''alice''"]
    g f b
  have "\<exists>p'. getProfile (later (Some ''alice'')) ''alice'' ?d' = Inr (Some p')
        \<and> p_has_paid_verification p' = Some False \<and> p_balance p' = Some 100000"
    by auto
  with g f t show ?thesis by blast
qed

text \<open>
  Claim C10. Called while the session's user or profile is absent,
  \<open>handleVerificationPayment\<close> returns at once: the database and the whole component
  state are as before (no request issued, no toast, nothing logged, \<open>loading\<close>
  untouched), and the handler resolves normally.
\<close>

theorem C10_absent_session:
  "ui_user ui = None \<or> ui_profile ui = None \<longrightarrow>
   handleVerificationPayment ins sel ref d ui = (d, ui, Undefined)"
  by (simp add: handleVerificationPayment_guard)

theorem C10_absent_session_witness:
  "handleVerificationPayment (session (Some ''alice'')) (session (Some ''alice''))
     (session (Some ''alice'')) db_new_alice (dashboard_alice\<lparr>ui_user := None\<rparr>) =
     (db_new_alice, dashboard_alice\<lparr>ui_user := None\<rparr>, Undefined)
   \<and> handleVerificationPayment (session (Some ''alice'')) (session (Some ''alice''))
     (session (Some ''alice'')) db_new_alice (dashboard_alice\<lparr>ui_profile := None\<rparr>) =
     (db_new_alice, dashboard_alice\<lparr>ui_profile := None\<rparr>, Undefined)"
proof -
  let ?c = "session (Some ''alice'')"
  have 1: "ui_user (dashboard_alice\<lparr>ui_user := None\<rparr>) = None" by simp
  have 2: "ui_profile (dashboard_alice\<lparr>ui_profile := None\<rparr>) = None" by simp
  from 1 C10_absent_session [of "dashboard_alice\<lparr>ui_user := None\<rparr>" ?c ?c ?c db_new_alice]
  have a: "handleVerificationPayment ?c ?c ?c db_new_alice (dashboard_alice\<lparr>ui_user := None\<rparr>) =
     (db_new_alice, dashboard_alice\<lparr>ui_user := None\<rparr>, Undefined)"
    by blast
  from 2 C10_absent_session [of "dashboard_alice\<lparr>ui_profile := None\<rparr>" ?c ?c ?c db_new_alice]
  have b: "handleVerificationPayment ?c ?c ?c db_new_alice (dashboard_alice\<lparr>ui_profile := None\<rparr>) =
     (db_new_alice, dashboard_alice\<lparr>ui_profile := None\<rparr>, Undefined)"
    by blast
  from a b show ?thesis by blast
qed

section \<open>A failed read\<close>

text \<open>
  Claim C9, as the code has it. When the request fails, the query answers with the
  error and no data; \<open>fetchTransactions\<close> catches the error and writes it to the console
  under "Error fetching transactions:". No toast is shown, the transactions on
  screen stay as they were, and exactly one request has been issued: no retry.
\<close>

theorem C9_fetch_failure:
  "(request_failure c = Some e \<longrightarrow> select_recent_transactions c uid d = (None, Some e))
   \<and> (select_recent_transactions c (map_option u_id (ui_user ui)) d = (data, Some e) \<longrightarrow>
        fetchTransactions c d ui =
          ui\<lparr>ui_console := ui_console ui @ [(''Error fetching transactions:'', e)],
             ui_requests := ui_requests ui @ [SelectTransactions (map_option u_id (ui_user ui))]\<rparr>
        \<and> ui_toasts (fetchTransactions c d ui) = ui_toasts ui
        \<and> ui_transactions (fetchTransactions c d ui) = ui_transactions ui)"
  by (simp add: select_recent_transactions_def fetchTransactions_def Let_def)

text \<open>
  The claim as the spec states it fails: after a failed fetch the list of toasts is
  still empty; the error went to the console.
\<close>

theorem C9_fetch_failure_counterexample:
  "select_recent_transactions (offline (Some ''alice'')) (Some ''alice'') db_busy =
     (None, Some (FetchError ''Failed to fetch''))
   \<and> ui_toasts (fetchTransactions (offline (Some ''alice'')) db_busy dashboard_alice) = []
   \<and> ui_console (fetchTransactions (offline (Some ''alice'')) db_busy dashboard_alice) =
       [(''Error fetching transactions:'', FetchError ''Failed to fetch'')]"
  by (simp add: select_recent_transactions_def fetchTransactions_def Let_def offline_def
        session_def dashboard_alice_def alice_def)

theorem C9_fetch_failure_witness:
  "fetchTransactions (offline (Some ''alice'')) db_busy dashboard_alice =
     dashboard_alice\<lparr>ui_console := [(''Error fetching transactions:'', FetchError ''Failed to fetch'')],
        ui_requests := [SelectTransactions (Some ''alice'')]\<rparr>"
proof -
  let ?c = "offline (Some ''alice'')"
  have f: "request_failure ?c = Some (FetchError ''Failed to fetch'')"
    by (simp add: offline_def)
  have u: "map_option u_id (ui_user dashboard_alice) = Some ''alice''"
    by (simp add: dashboard_alice_def alice_def)
  note inst = C9_fetch_failure [where c="?c" and e="FetchError ''Failed to fetch''" and d=db_busy
      and ui=dashboard_alice and uid="Some ''alice''" and data=None]
  from inst f u have "fetchTransactions ?c db_busy dashboard_alice =
          dashboard_alice\<lparr>ui_console := ui_console dashboard_alice @
               [(''Error fetching transactions:'', FetchError ''Failed to fetch'')],
             ui_requests := ui_requests dashboard_alice @ [SelectTransactions (Some ''alice'')]\<rparr>"
    by simp
  then show ?thesis by (simp add: dashboard_alice_def)
qed

section \<open>Every balance change is audited\<close>

lemma logged_trigger_rows:
  "map logged_entry
     (concat (map (\<lambda>(i, OLD, NEW).
                     if p_balance OLD \<noteq> p_balance NEW
                     then [balance_audit_row c i ''UPDATE'' ''profiles'' OLD NEW] else [])
                  (enumerate k fired))) =
   map expected_entry (balance_changes fired)"
proof (induction fired arbitrary: k)
  case Nil
  then show ?case by (simp add: balance_changes_def)
next
  case (Cons x fired)
  obtain OLD NEW where x: "x = (OLD, NEW)" by (cases x)
  have "balance_changes (x # fired) =
      (if p_balance OLD \<noteq> p_balance NEW then [(p_id NEW, p_balance OLD, p_balance NEW)] else [])
      @ balance_changes fired"
    by (simp add: balance_changes_def x)
  with Cons.IH [of "Suc k"] show ?case
    by (simp add: x logged_entry_def expected_entry_def balance_audit_row_def
          numeric_to_jsonb_def)
qed

lemma update_profiles_commits:
  assumes "update_profiles c wh upd d = Inr d'"
  shows "\<exists>new. audit_logs d' = audit_logs d @ new \<and>
           map logged_entry new = map expected_entry (committed_changes (UpdateProfiles c wh upd) d)"
proof -
  from assms obtain rows fired where
    r: "update_profiles_rows c d wh upd [] [] (profiles d) = Inr (rows, fired)" and
    l: "log_profile_balance_changes c 0 fired (d\<lparr>profiles := rows\<rparr>) = Inr d'"
    by (auto simp: update_profiles_def split: sum.splits)
  have "audit_logs d' = audit_logs d @
      concat (map (\<lambda>(i, OLD, NEW).
                     if p_balance OLD \<noteq> p_balance NEW
                     then [balance_audit_row c i ''UPDATE'' ''profiles'' OLD NEW] else [])
                  (enumerate 0 fired))"
    by (subst log_profile_balance_changes_result [OF l]) simp
  moreover have "committed_changes (UpdateProfiles c wh upd) d = balance_changes fired"
    by (simp add: r)
  ultimately show ?thesis
    by (simp add: logged_trigger_rows)
qed

lemma update_transactions_rows_only:
  "update_transactions c wh upd d = Inr d' \<Longrightarrow> \<exists>rows. d' = d\<lparr>transactions := rows\<rparr>"
  by (auto simp: update_transactions_def split: sum.splits)

lemma insert_transactions_only:
  "insert_transactions c r d = Inr d' \<Longrightarrow> \<exists>rows. d' = d\<lparr>transactions := rows\<rparr>"
  by (auto simp: insert_transactions_def split: sum.splits)

lemma insert_profiles_only:
  "insert_profiles c r d = Inr d' \<Longrightarrow> d' = d\<lparr>profiles := profiles d @ [r]\<rparr>"
  by (auto simp: insert_profiles_def insert_profiles_definer_def split: if_splits option.splits)

lemma insert_audit_logs_only:
  "insert_audit_logs c r d = Inr d' \<Longrightarrow> d' = d\<lparr>audit_logs := audit_logs d @ [r]\<rparr>"
  by (auto simp: insert_audit_logs_def split: if_splits option.splits)

lemma delete_user_only:
  "delete_user u d = Inr d' \<Longrightarrow>
   audit_logs d' = filter (\<lambda>a. a_user_id a \<noteq> Some u) (audit_logs d) \<and>
   profiles d' = filter (\<lambda>r. p_id r \<noteq> Some u) (profiles d) \<and>
   users d' = filter (\<lambda>x. u_id x \<noteq> u) (users d)"
  by (auto simp: delete_user_def)

lemma exec_audit_growth:
  assumes "exec s d = Inr d'" and "\<forall>u. s \<noteq> DeleteUser u"
  shows "\<exists>new. audit_logs d' = audit_logs d @ new \<and>
           subseq (map expected_entry (committed_changes s d)) (map logged_entry new)"
proof (cases s)
  case (CreateUser c u)
  with assms have "create_user c u d = Inr d'" by simp
  from create_user_success(1) [OF this] CreateUser show ?thesis by simp
next
  case (DeleteUser u)
  with assms show ?thesis by simp
next
  case (InsertProfiles c r)
  with assms have "insert_profiles c r d = Inr d'" by simp
  from insert_profiles_only [OF this] InsertProfiles show ?thesis by simp
next
  case (UpdateProfiles c wh upd)
  with assms have "update_profiles c wh upd d = Inr d'" by simp
  from update_profiles_commits [OF this] UpdateProfiles show ?thesis by auto
next
  case (InsertTransactions c r)
  with assms have "insert_transactions c r d = Inr d'" by simp
  from insert_transactions_only [OF this] InsertTransactions show ?thesis by auto
next
  case (UpdateTransactions c wh upd)
  with assms have "update_transactions c wh upd d = Inr d'" by simp
  from update_transactions_rows_only [OF this] UpdateTransactions show ?thesis by auto
next
  case (DeleteTransactions c wh)
  with assms show ?thesis by (auto simp: delete_transactions_def)
next
  case (InsertAuditLogs c r)
  with assms have "insert_audit_logs c r d = Inr d'" by simp
  from insert_audit_logs_only [OF this] InsertAuditLogs show ?thesis by simp
qed

lemma surviving_keep: "\<forall>u. s \<noteq> DeleteUser u \<Longrightarrow> surviving s h = h"
  by (cases s) simp_all

lemma entries_of_survivors:
  "map expected_entry (filter (\<lambda>ch. fst ch \<noteq> Some u) h) =
   filter (\<lambda>e. fst e \<noteq> Some u) (map expected_entry h)"
  by (induction h) (auto simp: expected_entry_def split: prod.splits)

lemma entries_of_kept_rows:
  "map logged_entry (filter (\<lambda>a. a_user_id a \<noteq> Some u) logs) =
   filter (\<lambda>e. fst e \<noteq> Some u) (map logged_entry logs)"
  by (induction logs) (auto simp: logged_entry_def)

lemma step_live_audited:
  assumes "audited dh"
  shows "audited (step_live dh s)"
proof (cases "exec s (fst dh)")
  case (Inl e)
  with assms show ?thesis
    by (simp add: step_live_def run_statement_def audited_def)
next
  case (Inr d')
  show ?thesis
  proof (cases "\<exists>u. s = DeleteUser u")
    case True
    then obtain u where s: "s = DeleteUser u" ..
    with Inr have del: "delete_user u (fst dh) = Inr d'" by simp
    from assms have "subseq (filter (\<lambda>e. fst e \<noteq> Some u) (map expected_entry (snd dh)))
        (filter (\<lambda>e. fst e \<noteq> Some u) (map logged_entry (audit_logs (fst dh))))"
      unfolding audited_def by (rule subseq_filter)
    then have "subseq (map expected_entry (filter (\<lambda>ch. fst ch \<noteq> Some u) (snd dh)))
        (map logged_entry (audit_logs d'))"
      by (simp only: entries_of_survivors entries_of_kept_rows delete_user_only [OF del])
    with Inr s show ?thesis
      by (simp add: step_live_def run_statement_def audited_def)
  next
    case False
    then have nd: "\<forall>u. s \<noteq> DeleteUser u" by simp
    from exec_audit_growth [OF Inr nd] obtain new where
      new: "audit_logs d' = audit_logs (fst dh) @ new"
        "subseq (map expected_entry (committed_changes s (fst dh))) (map logged_entry new)"
      by blast
    from assms new(2) have
      "subseq (map expected_entry (snd dh) @ map expected_entry (committed_changes s (fst dh)))
          (map logged_entry (audit_logs (fst dh)) @ map logged_entry new)"
      unfolding audited_def by (rule list_emb_append_mono)
    with Inr new(1) show ?thesis
      by (simp add: step_live_def run_statement_def audited_def surviving_keep [OF nd])
  qed
qed

lemma foldl_step_live_audited: "audited dh \<Longrightarrow> audited (foldl step_live dh ss)"
  by (induction ss arbitrary: dh) (simp_all add: step_live_audited)

lemma run_statements_live_audited: "audited (run_statements_live ss)"
  unfolding run_statements_live_def
  by (rule foldl_step_live_audited) (simp add: audited_def empty_db_def)

lemma step_live_db: "fst (step_live (d, hl) s) = fst (step (d, hf) s)"
  by (simp add: step_live_def step_def split: prod.splits option.splits)

lemma step_live_history:
  assumes "subseq hl hf"
  shows "subseq (snd (step_live (d, hl) s)) (snd (step (d, hf) s))"
proof (cases "exec s d")
  case (Inl e)
  with assms show ?thesis
    by (simp add: step_live_def step_def run_statement_def)
next
  case (Inr d')
  have "subseq (surviving s hl) hl"
    by (cases s) simp_all
  from this assms have "subseq (surviving s hl) hf"
    by (rule subseq_order.order_trans)
  then have "subseq (surviving s hl @ committed_changes s d) (hf @ committed_changes s d)"
    by (rule list_emb_append_mono) simp
  with Inr show ?thesis
    by (simp add: step_live_def step_def run_statement_def)
qed

lemma foldl_live_against_all:
  "subseq hl hf \<Longrightarrow>
   fst (foldl step_live (d, hl) ss) = fst (foldl step (d, hf) ss) \<and>
   subseq (snd (foldl step_live (d, hl) ss)) (snd (foldl step (d, hf) ss))"
proof (induction ss arbitrary: d hl hf)
  case Nil
  then show ?case by simp
next
  case (Cons s ss)
  obtain d1 hl1 where l: "step_live (d, hl) s = (d1, hl1)" by (cases "step_live (d, hl) s")
  obtain d2 hf1 where f: "step (d, hf) s = (d2, hf1)" by (cases "step (d, hf) s")
  from step_live_db [of d hl s hf] l f have same: "d2 = d1" by simp
  from step_live_history [OF Cons.prems, of d s] l f have "subseq hl1 hf1" by simp
  from Cons.IH [OF this, of d1] l f same show ?case by simp
qed

lemma run_statements_live_against_all:
  "fst (run_statements_live ss) = fst (run_statements ss) \<and>
   subseq (snd (run_statements_live ss)) (snd (run_statements ss))"
  unfolding run_statements_live_def run_statements_def
  by (rule foldl_live_against_all) simp

lemma foldl_without_deletion:
  "\<forall>u. DeleteUser u \<notin> set ss \<Longrightarrow> foldl step_live dh ss = foldl step dh ss"
proof (induction ss arbitrary: dh)
  case Nil
  then show ?case by simp
next
  case (Cons s ss)
  then have nd: "\<forall>u. s \<noteq> DeleteUser u" and rest: "\<forall>u. DeleteUser u \<notin> set ss"
    by auto
  have "step_live dh s = step dh s"
    by (simp add: step_live_def step_def surviving_keep [OF nd] split: prod.splits option.splits)
  with Cons.IH [OF rest] show ?case by simp
qed

lemma run_statements_without_deletion:
  "\<forall>u. DeleteUser u \<notin> set ss \<Longrightarrow> audited (run_statements ss)"
  using run_statements_live_audited [of ss]
  by (simp add: run_statements_live_def run_statements_def foldl_without_deletion)

lemma exec_keeps_profiles:
  assumes "exec s d = Inr d'" and "\<forall>c wh upd. s \<noteq> UpdateProfiles c wh upd"
    and "\<forall>u. s \<noteq> DeleteUser u"
  shows "prefix (profiles d) (profiles d')"
proof (cases s)
  case (CreateUser c u)
  with assms have "create_user c u d = Inr d'" by simp
  from create_user_success(1) [OF this] show ?thesis by simp
next
  case (DeleteUser u)
  with assms show ?thesis by simp
next
  case (InsertProfiles c r)
  with assms have "insert_profiles c r d = Inr d'" by simp
  from insert_profiles_only [OF this] show ?thesis by simp
next
  case (UpdateProfiles c wh upd)
  with assms show ?thesis by simp
next
  case (InsertTransactions c r)
  with assms have "insert_transactions c r d = Inr d'" by simp
  from insert_transactions_only [OF this] show ?thesis by auto
next
  case (UpdateTransactions c wh upd)
  with assms have "update_transactions c wh upd d = Inr d'" by simp
  from update_transactions_rows_only [OF this] show ?thesis by auto
next
  case (DeleteTransactions c wh)
  with assms show ?thesis by (auto simp: delete_transactions_def)
next
  case (InsertAuditLogs c r)
  with assms have "insert_audit_logs c r d = Inr d'" by simp
  from insert_audit_logs_only [OF this] show ?thesis by simp
qed

lemma committed_changes_update:
  assumes "update_profiles c wh upd d = Inr d'"
  shows "committed_changes (UpdateProfiles c wh upd) d =
     map (\<lambda>r. (p_id (upd r), p_balance r, p_balance (upd r)))
       (filter (\<lambda>r. p_balance r \<noteq> p_balance (upd r))
          (filter (\<lambda>r. profiles_policy c r \<and> wh r) (profiles d)))"
    and "profiles d' = map (\<lambda>r. if profiles_policy c r \<and> wh r
                               then (upd r)\<lparr>p_updated_at := Some (now c)\<rparr> else r) (profiles d)"
proof -
  from assms obtain rows fired where
    r: "update_profiles_rows c d wh upd [] [] (profiles d) = Inr (rows, fired)" and
    l: "log_profile_balance_changes c 0 fired (d\<lparr>profiles := rows\<rparr>) = Inr d'"
    by (auto simp: update_profiles_def split: sum.splits)
  note res = update_profiles_rows_result [OF r]
  from res show "committed_changes (UpdateProfiles c wh upd) d =
     map (\<lambda>r. (p_id (upd r), p_balance r, p_balance (upd r)))
       (filter (\<lambda>r. p_balance r \<noteq> p_balance (upd r))
          (filter (\<lambda>r. profiles_policy c r \<and> wh r) (profiles d)))"
    by (simp add: r balance_changes_def filter_map comp_def update_updated_at_column_def)
  from res show "profiles d' = map (\<lambda>r. if profiles_policy c r \<and> wh r
                               then (upd r)\<lparr>p_updated_at := Some (now c)\<rparr> else r) (profiles d)"
    by (subst log_profile_balance_changes_result [OF l])
       (simp add: update_updated_at_column_def)
qed

lemma step_delete_user:
  "run_statement d (exec (DeleteUser u)) =
     (None, \<lparr>users = filter (\<lambda>x. u_id x \<noteq> u) (users d),
             profiles = filter (\<lambda>r. p_id r \<noteq> Some u) (profiles d),
             transactions = filter (\<lambda>r. t_user_id r \<noteq> Some u) (transactions d),
             audit_logs = filter (\<lambda>a. a_user_id a \<noteq> Some u) (audit_logs d)\<rparr>)"
  by (simp add: run_statement_def delete_user_def)

lemma step_live_delete_user:
  "step_live dh (DeleteUser u) =
     (fst (step dh (DeleteUser u)), filter (\<lambda>ch. fst ch \<noteq> Some u) (snd dh))"
  by (simp add: step_live_def step_def run_statement_def delete_user_def)

lemma step_live_other: "\<forall>u. s \<noteq> DeleteUser u \<Longrightarrow> step_live dh s = step dh s"
  by (simp add: step_live_def step_def surviving_keep split: prod.splits option.splits)

lemma run_statements_live_entries:
  assumes "ch \<in> set (snd (run_statements_live ss))"
  shows "\<exists>a \<in> set (audit_logs (fst (run_statements_live ss))). logged_entry a = expected_entry ch"
proof -
  from assms
  have mem: "expected_entry ch \<in> set (map expected_entry (snd (run_statements_live ss)))"
    by simp
  from run_statements_live_audited [of ss]
  have sub: "subseq (map expected_entry (snd (run_statements_live ss)))
      (map logged_entry (audit_logs (fst (run_statements_live ss))))"
    by (simp only: audited_def)
  from list_emb_set [OF sub mem]
  have "expected_entry ch \<in> set (map logged_entry (audit_logs (fst (run_statements_live ss))))"
    by blast
  then show ?thesis
    by auto
qed

text \<open>
  Claim C6, as the code has it. The audit row is written in the transaction of the
  update that fires the trigger. When the trigger's insert fails, the \<open>UPDATE\<close> returns
  the error and the database is as before: the balance update is rolled back. When the
  \<open>UPDATE\<close> commits, the audit log has grown by exactly the rows of its balance changes,
  which are the rows it reached and wrote with a different balance. No statement but an
  update of profiles and the deletion of an identity changes an existing profile row
  or removes an audit row. The deletion of an identity always commits and removes the
  identity's profile and its audit rows with it, and nobody else's. Hence in every state
  reached from the empty database by any sequence of \<open>statement\<close>s, committed or aborted,
  deletions included, every committed balance change of an identity that has not been
  deleted since has its audit entry: the entries of these changes are embedded in the
  audit log, one row each, in order. The changes counted are those of the whole
  history less the ones a later deletion took out, and in a history without a
  deletion they are all of them.
\<close>

theorem C6_audit_in_same_transaction:
  "(update_profiles_rows c d wh upd [] [] (profiles d) = Inr (rows, fired) \<and>
      log_profile_balance_changes c 0 fired (d\<lparr>profiles := rows\<rparr>) = Inl e \<longrightarrow>
      run_statement d (update_profiles c wh upd) = (Some e, d))
   \<and> (run_statement d (update_profiles c wh upd) = (None, d') \<longrightarrow>
        (\<exists>new. audit_logs d' = audit_logs d @ new \<and>
           map logged_entry new =
           map expected_entry (committed_changes (UpdateProfiles c wh upd) d))
        \<and> committed_changes (UpdateProfiles c wh upd) d =
            map (\<lambda>r. (p_id (upd r), p_balance r, p_balance (upd r)))
              (filter (\<lambda>r. p_balance r \<noteq> p_balance (upd r))
                 (filter (\<lambda>r. profiles_policy c r \<and> wh r) (profiles d)))
        \<and> profiles d' =
            map (\<lambda>r. if profiles_policy c r \<and> wh r
                      then (upd r)\<lparr>p_updated_at := Some (now c)\<rparr> else r) (profiles d))
   \<and> (\<forall>s d0 d1. (\<forall>c wh upd. s \<noteq> UpdateProfiles c wh upd) \<and> (\<forall>u. s \<noteq> DeleteUser u) \<and>
          exec s d0 = Inr d1 \<longrightarrow>
        prefix (profiles d0) (profiles d1) \<and> prefix (audit_logs d0) (audit_logs d1))
   \<and> run_statement d (exec (DeleteUser u)) =
       (None, \<lparr>users = filter (\<lambda>x. u_id x \<noteq> u) (users d),
               profiles = filter (\<lambda>r. p_id r \<noteq> Some u) (profiles d),
               transactions = filter (\<lambda>r. t_user_id r \<noteq> Some u) (transactions d),
               audit_logs = filter (\<lambda>a. a_user_id a \<noteq> Some u) (audit_logs d)\<rparr>)
   \<and> step_live dh (DeleteUser u) =
       (fst (step dh (DeleteUser u)), filter (\<lambda>ch. fst ch \<noteq> Some u) (snd dh))
   \<and> ((\<forall>u. s \<noteq> DeleteUser u) \<longrightarrow> step_live dh s = step dh s)
   \<and> fst (run_statements_live ss) = fst (run_statements ss)
   \<and> subseq (snd (run_statements_live ss)) (snd (run_statements ss))
   \<and> audited (run_statements_live ss)
   \<and> (\<forall>ch \<in> set (snd (run_statements_live ss)).
        \<exists>a \<in> set (audit_logs (fst (run_statements_live ss))).
          logged_entry a = expected_entry ch)
   \<and> ((\<forall>u. DeleteUser u \<notin> set ss) \<longrightarrow>
        run_statements_live ss = run_statements ss \<and> audited (run_statements ss))"
proof (intro conjI impI allI ballI)
  assume "update_profiles_rows c d wh upd [] [] (profiles d) = Inr (rows, fired) \<and>
      log_profile_balance_changes c 0 fired (d\<lparr>profiles := rows\<rparr>) = Inl e"
  then show "run_statement d (update_profiles c wh upd) = (Some e, d)"
    by (simp add: run_statement_def update_profiles_def)
next
  assume "run_statement d (update_profiles c wh upd) = (None, d')"
  then have ok: "update_profiles c wh upd d = Inr d'"
    by (auto simp: run_statement_def split: sum.splits)
  show "\<exists>new. audit_logs d' = audit_logs d @ new \<and>
           map logged_entry new =
           map expected_entry (committed_changes (UpdateProfiles c wh upd) d)"
    by (rule update_profiles_commits [OF ok])
  show "committed_changes (UpdateProfiles c wh upd) d =
            map (\<lambda>r. (p_id (upd r), p_balance r, p_balance (upd r)))
              (filter (\<lambda>r. p_balance r \<noteq> p_balance (upd r))
                 (filter (\<lambda>r. profiles_policy c r \<and> wh r) (profiles d)))"
    by (rule committed_changes_update(1) [OF ok])
  show "profiles d' =
            map (\<lambda>r. if profiles_policy c r \<and> wh r
                      then (upd r)\<lparr>p_updated_at := Some (now c)\<rparr> else r) (profiles d)"
    by (rule committed_changes_update(2) [OF ok])
next
  fix s d0 d1
  assume h: "(\<forall>c wh upd. s \<noteq> UpdateProfiles c wh upd) \<and> (\<forall>u. s \<noteq> DeleteUser u) \<and>
      exec s d0 = Inr d1"
  then have b: "\<forall>c wh upd. s \<noteq> UpdateProfiles c wh upd"
    by (rule conjunct1)
  from h have n: "\<forall>u. s \<noteq> DeleteUser u"
    by (rule conjunct2 [THEN conjunct1])
  from h have a: "exec s d0 = Inr d1"
    by (rule conjunct2 [THEN conjunct2])
  show "prefix (profiles d0) (profiles d1)"
    by (rule exec_keeps_profiles [OF a b n])
  from exec_audit_growth [OF a n] obtain new where "audit_logs d1 = audit_logs d0 @ new"
    by blast
  then show "prefix (audit_logs d0) (audit_logs d1)"
    by simp
next
  show "run_statement d (exec (DeleteUser u)) =
       (None, \<lparr>users = filter (\<lambda>x. u_id x \<noteq> u) (users d),
               profiles = filter (\<lambda>r. p_id r \<noteq> Some u) (profiles d),
               transactions = filter (\<lambda>r. t_user_id r \<noteq> Some u) (transactions d),
               audit_logs = filter (\<lambda>a. a_user_id a \<noteq> Some u) (audit_logs d)\<rparr>)"
    by (rule step_delete_user)
next
  show "step_live dh (DeleteUser u) =
       (fst (step dh (DeleteUser u)), filter (\<lambda>ch. fst ch \<noteq> Some u) (snd dh))"
    by (rule step_live_delete_user)
next
  assume "\<forall>u. s \<noteq> DeleteUser u"
  then show "step_live dh s = step dh s"
    by (rule step_live_other)
next
  show "fst (run_statements_live ss) = fst (run_statements ss)"
    by (rule run_statements_live_against_all [THEN conjunct1])
next
  show "subseq (snd (run_statements_live ss)) (snd (run_statements ss))"
    by (rule run_statements_live_against_all [THEN conjunct2])
next
  show "audited (run_statements_live ss)"
    by (rule run_statements_live_audited)
next
  fix ch
  assume "ch \<in> set (snd (run_statements_live ss))"
  then show "\<exists>a \<in> set (audit_logs (fst (run_statements_live ss))).
      logged_entry a = expected_entry ch"
    by (rule run_statements_live_entries)
next
  assume nd: "\<forall>u. DeleteUser u \<notin> set ss"
  then show "run_statements_live ss = run_statements ss"
    by (simp add: run_statements_live_def run_statements_def foldl_without_deletion)
  from nd show "audited (run_statements ss)"
    by (rule run_statements_without_deletion)
qed

lemmas history_defs = run_statements_def step_def run_statement_def balance_changes_def
  alice_history_def db_collide_def run_statements_live_def step_live_def delete_user_def

lemma alice_history_runs:
  "run_statements alice_history = (db_alice_5, [(Some ''alice'', Some 100000, Some 5)])"
  by (simp add: history_defs sql_defs transactions_defs cast_defs profiles_defs audit_defs
      sample_defs)

lemma alice_deleted_runs:
  "run_statements (alice_history @ [DeleteUser ''alice'']) =
     (empty_db, [(Some ''alice'', Some 100000, Some 5)])"
proof -
  have "run_statements (alice_history @ [DeleteUser ''alice'']) =
      step (run_statements alice_history) (DeleteUser ''alice'')"
    by (simp add: run_statements_def)
  then show ?thesis
    by (simp add: alice_history_runs step_def run_statement_def delete_user_def
        verification_payment_def sample_defs)
qed

lemma alice_deleted_runs_live:
  "run_statements_live (alice_history @ [DeleteUser ''alice'']) = (empty_db, [])"
  by (simp add: history_defs sql_defs transactions_defs cast_defs profiles_defs audit_defs
      sample_defs)

text \<open>
  Without the restriction to the identities that exist the invariant fails: after the
  history of alice, whose balance went from 100000 to 5, the deletion of alice leaves
  an empty database, and the committed balance change has no audit row any more.
\<close>

theorem C6_audit_in_same_transaction_counterexample:
  "run_statements (alice_history @ [DeleteUser ''alice'']) =
     (empty_db, [(Some ''alice'', Some 100000, Some 5)])
   \<and> audit_logs (fst (run_statements (alice_history @ [DeleteUser ''alice'']))) = []
   \<and> \<not> audited (run_statements (alice_history @ [DeleteUser ''alice'']))"
  by (simp add: alice_deleted_runs audited_def empty_db_def)

lemma collision_fires:
  "update_profiles_rows (later (Some ''alice'')) db_collide (\<lambda>r. True)
     (\<lambda>r. r\<lparr>p_balance := Some 5\<rparr>) [] [] (profiles db_collide) =
     Inr ([alice_profile\<lparr>p_balance := Some 5, p_updated_at := Some 2000\<rparr>],
          [(alice_profile, alice_profile\<lparr>p_balance := Some 5, p_updated_at := Some 2000\<rparr>)])
   \<and> log_profile_balance_changes (later (Some ''alice'')) 0
       [(alice_profile, alice_profile\<lparr>p_balance := Some 5, p_updated_at := Some 2000\<rparr>)]
       (db_collide\<lparr>profiles := [alice_profile\<lparr>p_balance := Some 5, p_updated_at := Some 2000\<rparr>]\<rparr>)
     = Inl (UniqueViolation ''audit_logs_pkey'')"
  by (simp add: history_defs sql_defs profiles_defs audit_defs sample_defs)

lemma balance_update_commits:
  "run_statement db_alice
     (update_profiles (later (Some ''alice'')) (\<lambda>r. True) (\<lambda>r. r\<lparr>p_balance := Some 5\<rparr>)) =
     (None, db_alice_5)"
  by (simp add: history_defs sql_defs profiles_defs audit_defs sample_defs)

lemma payment_commits:
  "exec (InsertTransactions (session (Some ''alice'')) alice_payment) db_new_alice = Inr db_alice"
  by (simp add: history_defs sql_defs transactions_defs cast_defs sample_defs)

theorem C6_audit_in_same_transaction_witness:
  "run_statement db_collide
     (update_profiles (later (Some ''alice'')) (\<lambda>r. True) (\<lambda>r. r\<lparr>p_balance := Some 5\<rparr>)) =
     (Some (UniqueViolation ''audit_logs_pkey''), db_collide)
   \<and> run_statement db_alice
       (update_profiles (later (Some ''alice'')) (\<lambda>r. True) (\<lambda>r. r\<lparr>p_balance := Some 5\<rparr>)) =
       (None, db_alice_5)
   \<and> profiles db_alice_5 = [alice_profile\<lparr>p_balance := Some 5, p_updated_at := Some 2000\<rparr>]
   \<and> exec (InsertTransactions (session (Some ''alice'')) alice_payment) db_new_alice = Inr db_alice
   \<and> prefix (audit_logs db_new_alice) (audit_logs db_alice)
   \<and> run_statements alice_history = (db_alice_5, [(Some ''alice'', Some 100000, Some 5)])
   \<and> audited (db_alice_5, [(Some ''alice'', Some 100000, Some 5)])
   \<and> (\<exists>a \<in> set (audit_logs db_alice_5).
         logged_entry a = expected_entry (Some ''alice'', Some 100000, Some 5))
   \<and> run_statements_live (alice_history @ [DeleteUser ''alice'']) = (empty_db, [])
   \<and> audited (empty_db, [])"
proof -
  let ?c = "later (Some ''alice'')"
  let ?upd = "\<lambda>r. r\<lparr>p_balance := Some (5::rat)\<rparr>"
  let ?NEW = "alice_profile\<lparr>p_balance := Some 5, p_updated_at := Some 2000\<rparr>"
  let ?pay = "InsertTransactions (session (Some ''alice'')) alice_payment"
  note fails = C6_audit_in_same_transaction [where c="?c" and d=db_collide and wh="\<lambda>r. True"
      and upd="?upd" and rows="[?NEW]" and fired="[(alice_profile, ?NEW)]"
      and e="UniqueViolation ''audit_logs_pkey''" and ss=alice_history]
  note commits = C6_audit_in_same_transaction [where c="?c" and d=db_alice and wh="\<lambda>r. True"
      and upd="?upd" and d'=db_alice_5 and ss="alice_history @ [DeleteUser ''alice'']"]
  from fails [THEN conjunct1, rule_format, OF collision_fires]
  have 1: "run_statement db_collide (update_profiles ?c (\<lambda>r. True) ?upd) =
     (Some (UniqueViolation ''audit_logs_pkey''), db_collide)" .
  from commits [THEN conjunct2, THEN conjunct1, rule_format, OF balance_update_commits]
  have "profiles db_alice_5 =
      map (\<lambda>r. if profiles_policy ?c r \<and> True then (?upd r)\<lparr>p_updated_at := Some (now ?c)\<rparr> else r)
        (profiles db_alice)"
    by (rule conjunct2 [THEN conjunct2])
  then have 2: "profiles db_alice_5 = [?NEW]"
    by (simp add: sql_defs profiles_defs sample_defs)
  have other: "(\<forall>c wh upd. ?pay \<noteq> UpdateProfiles c wh upd) \<and> (\<forall>u. ?pay \<noteq> DeleteUser u) \<and>
      exec ?pay db_new_alice = Inr db_alice"
    using payment_commits by simp
  from fails [THEN conjunct2, THEN conjunct2, THEN conjunct1, rule_format, OF other]
  have 3: "prefix (audit_logs db_new_alice) (audit_logs db_alice)"
    by (rule conjunct2)
  have nodel: "\<forall>u. DeleteUser u \<notin> set alice_history"
    by (simp add: alice_history_def)
  from fails [THEN conjunct2, THEN conjunct2, THEN conjunct2, THEN conjunct2, THEN conjunct2,
      THEN conjunct2, THEN conjunct2, THEN conjunct2, THEN conjunct2, THEN conjunct2,
      rule_format, OF nodel [rule_format]]
  have "audited (run_statements alice_history)"
    by (rule conjunct2)
  then have 4: "audited (db_alice_5, [(Some ''alice'', Some 100000, Some 5)])"
    by (simp only: alice_history_runs)
  from fails [THEN conjunct2, THEN conjunct2, THEN conjunct2, THEN conjunct2, THEN conjunct2,
      THEN conjunct2, THEN conjunct2, THEN conjunct2, THEN conjunct2, THEN conjunct2,
      rule_format, OF nodel [rule_format]]
  have same: "run_statements_live alice_history = run_statements alice_history"
    by (rule conjunct1)
  from fails [THEN conjunct2, THEN conjunct2, THEN conjunct2, THEN conjunct2, THEN conjunct2,
      THEN conjunct2, THEN conjunct2, THEN conjunct2, THEN conjunct2, THEN conjunct1]
  have "\<forall>ch \<in> set (snd (run_statements_live alice_history)).
        \<exists>a \<in> set (audit_logs (fst (run_statements_live alice_history))).
          logged_entry a = expected_entry ch" .
  then have 5: "\<exists>a \<in> set (audit_logs db_alice_5).
         logged_entry a = expected_entry (Some ''alice'', Some 100000, Some 5)"
    by (simp add: same alice_history_runs)
  from commits [THEN conjunct2, THEN conjunct2, THEN conjunct2, THEN conjunct2, THEN conjunct2,
      THEN conjunct2, THEN conjunct2, THEN conjunct2, THEN conjunct1]
  have "audited (run_statements_live (alice_history @ [DeleteUser ''alice'']))" .
  then have 6: "audited (empty_db, [])"
    by (simp only: alice_deleted_runs_live)
  from 1 balance_update_commits 2 payment_commits 3 alice_history_runs 4 5
    alice_deleted_runs_live 6
  show ?thesis
    by (intro conjI)
qed

end
